theory Spec2Isabelle
  imports Complex_Main "HOL-Library.AList" "HOL-Library.Multiset"
begin

section \<open>JavaScript values\<close>

text \<open>
  The shim of \<^verbatim>\<open>src/client/src/configs/api.js\<close> moves JSON data between the caller and
  the browser's \<^verbatim>\<open>localStorage\<close>. A JavaScript value that JSON can carry is a \<open>json\<close>;
  \<^verbatim>\<open>undefined\<close> is \<open>None\<close> of \<open>json option\<close>. An object is an association list in
  the order in which the object lists its properties (the order \<^verbatim>\<open>JSON.stringify\<close>
  observes); keys are looked up with \<open>map_of\<close>. A property with a name such as
  \<^verbatim>\<open>updatedAt\<close> is written with \<open>AList.update\<close>, which keeps the position of a key that
  is already there and appends a new one, as property assignment does; a property whose
  name may be an array index is written with \<open>set_prop\<close> below.
  A string is a list of code units below 256.
\<close>

datatype json =
    JNull
  | JBool bool
  | JNum rat
  | JStr string
  | JArr "json list"
  | JObj "(string \<times> json) list"

text \<open>ToBoolean: what \<^verbatim>\<open>!v\<close>, \<^verbatim>\<open>v || d\<close> and \<^verbatim>\<open>v ? a : b\<close> test.\<close>

fun truthy :: "json \<Rightarrow> bool" where
  "truthy JNull = False"
| "truthy (JBool b) = b"
| "truthy (JNum n) = (n \<noteq> 0)"
| "truthy (JStr s) = (s \<noteq> [])"
| "truthy (JArr xs) = True"
| "truthy (JObj kvs) = True"

fun truthy_opt :: "json option \<Rightarrow> bool" where
  "truthy_opt None = False"
| "truthy_opt (Some v) = truthy v"

text \<open>\<^verbatim>\<open>v || d\<close> on a possibly undefined \<open>v\<close>.\<close>

definition or_else :: "json option \<Rightarrow> json \<Rightarrow> json" where
  "or_else v d = (case v of None \<Rightarrow> d | Some x \<Rightarrow> if truthy x then x else d)"

text \<open>
  Strict equality \<^verbatim>\<open>a === b\<close>. Primitives are compared by value. Two objects or arrays
  are equal only when they are the same reference, which a value read from the request
  and a value parsed from storage never are.
\<close>

fun strict_eq :: "json option \<Rightarrow> json option \<Rightarrow> bool" where
  "strict_eq None None = True"
| "strict_eq (Some JNull) (Some JNull) = True"
| "strict_eq (Some (JBool a)) (Some (JBool b)) = (a = b)"
| "strict_eq (Some (JNum a)) (Some (JNum b)) = (a = b)"
| "strict_eq (Some (JStr a)) (Some (JStr b)) = (a = b)"
| "strict_eq _ _ = False"

text \<open>
  What the program throws: the structured failure built by \<^verbatim>\<open>axiosLikeError\<close>, or one of
  the runtime's own exceptions.
\<close>

record errorData =
  data_message :: string

record errorResponse =
  status :: nat
  data :: errorData

record axiosError =
  message :: string
  response :: errorResponse

datatype thrown =
    Structured axiosError
  | TypeError
  | SyntaxError
  | URIError
  | JsError string

definition axiosLikeError :: "string \<Rightarrow> nat option \<Rightarrow> axiosError" where
  "axiosLikeError msg status_arg =
     \<lparr> message = msg,
       response = \<lparr> status = (case status_arg of None \<Rightarrow> 400 | Some s \<Rightarrow> s),
                    data = \<lparr> data_message = msg \<rparr> \<rparr> \<rparr>"

text \<open>
  Property read \<^verbatim>\<open>v.k\<close> for the keys the program reads (\<^verbatim>\<open>_id\<close>, \<^verbatim>\<open>title\<close>,
  \<^verbatim>\<open>personal_info\<close>, ...): none of them is a built-in property of a string, a number, a
  boolean or an array, so only an object can have it. Reading a property of \<^verbatim>\<open>null\<close>
  throws a TypeError.
\<close>

definition getProp :: "json \<Rightarrow> string \<Rightarrow> thrown + json option" where
  "getProp v k = (case v of JNull \<Rightarrow> Inl TypeError | JObj kvs \<Rightarrow> Inr (map_of kvs k) | _ \<Rightarrow> Inr None)"

section \<open>Storage accessor\<close>

text \<open>
  \<^verbatim>\<open>localStorage\<close> maps keys to strings. The program does three things with a stored
  string: it tests it for emptiness, it hands it to \<^verbatim>\<open>JSON.parse\<close>, and it overwrites it
  with \<^verbatim>\<open>JSON.stringify\<close> of a value or with a literal. A stored string is therefore
  represented by what \<^verbatim>\<open>JSON.parse\<close> makes of it: \<open>Encoded v\<close> is a text that parses to
  \<open>v\<close> (such a text is never empty), \<open>Raw s\<close> is the text \<open>s\<close>, which \<^verbatim>\<open>JSON.parse\<close>
  rejects with a SyntaxError. \<^verbatim>\<open>setItem\<close> is taken to succeed.
\<close>

datatype item = Encoded json | Raw string

type_synonym localStorage = "string \<rightharpoonup> item"

definition JSON_parse :: "item \<Rightarrow> thrown + json" where
  "JSON_parse raw = (case raw of Encoded v \<Rightarrow> Inr v | Raw s \<Rightarrow> Inl SyntaxError)"

definition JSON_stringify :: "json \<Rightarrow> item" where
  "JSON_stringify v = Encoded v"

text \<open>\<^verbatim>\<open>!raw\<close> for the result of \<^verbatim>\<open>getItem\<close>: \<^verbatim>\<open>null\<close> or the empty string.\<close>

definition no_item :: "item option \<Rightarrow> bool" where
  "no_item raw = (case raw of None \<Rightarrow> True | Some (Raw s) \<Rightarrow> s = [] | Some (Encoded v) \<Rightarrow> False)"

definition LS_KEYS_user :: string where "LS_KEYS_user = ''arb_user''"
definition LS_KEYS_token :: string where "LS_KEYS_token = ''arb_token''"
definition LS_KEYS_resumes :: string where "LS_KEYS_resumes = ''arb_resumes''"

text \<open>The body of the \<^verbatim>\<open>try\<close> block of \<^verbatim>\<open>readJson\<close>, and \<^verbatim>\<open>readJson\<close> with its \<^verbatim>\<open>catch\<close>.\<close>

definition readJson_try :: "localStorage \<Rightarrow> string \<Rightarrow> json \<Rightarrow> thrown + json" where
  "readJson_try ls key fallback =
     (case ls key of
        None \<Rightarrow> Inr fallback
      | Some raw \<Rightarrow> if no_item (Some raw) then Inr fallback else JSON_parse raw)"

definition readJson :: "localStorage \<Rightarrow> string \<Rightarrow> json \<Rightarrow> json" where
  "readJson ls key fallback =
     (case readJson_try ls key fallback of Inr v \<Rightarrow> v | Inl e \<Rightarrow> fallback)"

definition writeJson :: "localStorage \<Rightarrow> string \<Rightarrow> json \<Rightarrow> localStorage" where
  "writeJson ls key v = ls(key \<mapsto> JSON_stringify v)"

section \<open>Seed initializer\<close>

definition default_user :: json where
  "default_user = JObj [(''_id'', JStr ''local_user''), (''name'', JStr ''Joe Doe''),
                        (''email'', JStr ''joe@example.com'')]"

definition ensureSeed :: "localStorage \<Rightarrow> localStorage" where
  "ensureSeed ls =
     (let existingUser = readJson ls LS_KEYS_user JNull;
          ls1 = (if \<not> truthy existingUser then writeJson ls LS_KEYS_user default_user else ls);
          existingToken = ls1 LS_KEYS_token;
          ls2 = (if no_item existingToken then ls1(LS_KEYS_token \<mapsto> Raw ''local_token'') else ls1);
          existingResumes = readJson ls2 LS_KEYS_resumes JNull;
          ls3 = (if \<not> truthy existingResumes then writeJson ls2 LS_KEYS_resumes (JArr []) else ls2)
      in ls3)"

section \<open>Identifier and timestamp utilities\<close>

text \<open>
  What one request reads from the clock and the random generator, in the order the
  source reads it: \<^verbatim>\<open>Date.now()\<close> and \<^verbatim>\<open>Math.random().toString(36)\<close> in \<^verbatim>\<open>makeId\<close>,
  then the results of the first and of the second call of \<^verbatim>\<open>nowIso()\<close>.
\<close>

record env =
  dateNow :: nat
  mathRandom36 :: string
  nowIso1 :: string
  nowIso2 :: string

text \<open>
  Functions of the JavaScript runtime that the program calls and that are taken as
  parameters: \<^verbatim>\<open>new Date(v).getTime()\<close> (\<open>None\<close> is NaN), \<^verbatim>\<open>decodeURIComponent\<close>
  (\<open>None\<close> is a thrown URIError), the decimal form of a number, and what
  \<^verbatim>\<open>Array.prototype.sort\<close> does with a comparator (whose \<open>None\<close> is NaN) where the language
  leaves that to the engine (see \<open>array_sort\<close> below).
\<close>

record platform =
  getTime :: "json option \<Rightarrow> int option"
  decodeURIComponent :: "string \<Rightarrow> string option"
  numberToString :: "rat \<Rightarrow> string"
  engineSort :: "(json \<Rightarrow> json \<Rightarrow> thrown + int option) \<Rightarrow> json list \<Rightarrow> thrown + json list"

definition digit36 :: "nat \<Rightarrow> char" where
  "digit36 d = ''0123456789abcdefghijklmnopqrstuvwxyz'' ! d"

fun toString36 :: "nat \<Rightarrow> string" where
  "toString36 n = (if n < 36 then [digit36 n] else toString36 (n div 36) @ [digit36 (n mod 36)])"

declare toString36.simps [simp del]

definition slice :: "nat \<Rightarrow> nat \<Rightarrow> 'a list \<Rightarrow> 'a list" where
  "slice start stop xs = take (stop - start) (drop start xs)"

definition makeId :: "string option \<Rightarrow> env \<Rightarrow> string" where
  "makeId prefix e =
     (case prefix of None \<Rightarrow> ''res'' | Some p \<Rightarrow> p) @ ''_'' @ toString36 (dateNow e) @ ''_''
       @ slice 2 10 (mathRandom36 e)"

section \<open>Resume repository\<close>

definition getResumes :: "localStorage \<Rightarrow> json \<times> localStorage" where
  "getResumes ls = (let ls1 = ensureSeed ls in (readJson ls1 LS_KEYS_resumes (JArr []), ls1))"

definition setResumes :: "localStorage \<Rightarrow> json \<Rightarrow> localStorage" where
  "setResumes ls resumes = writeJson ls LS_KEYS_resumes resumes"

text \<open>
  \<^verbatim>\<open>resumes.find((r) => r._id === resumeId)\<close>: the callback throws at a \<^verbatim>\<open>null\<close>
  element that is reached before a match.
\<close>

fun array_find :: "json option \<Rightarrow> json list \<Rightarrow> thrown + json option" where
  "array_find resumeId [] = Inr None"
| "array_find resumeId (r # rs) =
     (case getProp r ''_id'' of
        Inl e \<Rightarrow> Inl e
      | Inr i \<Rightarrow> if strict_eq i resumeId then Inr (Some r) else array_find resumeId rs)"

text \<open>
  \<^verbatim>\<open>findResume\<close>: the found element \<^verbatim>\<open>|| null\<close>, where \<open>None\<close> is \<^verbatim>\<open>null\<close>. A value that is
  not an array has no \<^verbatim>\<open>find\<close>, \<^verbatim>\<open>findIndex\<close>, \<^verbatim>\<open>filter\<close> or \<^verbatim>\<open>sort\<close>.
\<close>

definition findResume :: "localStorage \<Rightarrow> json option \<Rightarrow> (thrown + json option) \<times> localStorage" where
  "findResume ls resumeId =
     (case getResumes ls of
        (JArr rs, ls1) \<Rightarrow>
          (case array_find resumeId rs of
             Inl e \<Rightarrow> (Inl e, ls1)
           | Inr found \<Rightarrow> (Inr (if truthy_opt found then found else None), ls1))
      | (other, ls1) \<Rightarrow> (Inl TypeError, ls1))"

text \<open>\<^verbatim>\<open>resumes.findIndex((r) => r._id === updated._id)\<close>, counting from \<open>i\<close>; \<open>None\<close> is \<open>-1\<close>.\<close>

fun array_findIndex :: "json \<Rightarrow> nat \<Rightarrow> json list \<Rightarrow> thrown + nat option" where
  "array_findIndex updated i [] = Inr None"
| "array_findIndex updated i (r # rs) =
     (case getProp r ''_id'' of
        Inl e \<Rightarrow> Inl e
      | Inr a \<Rightarrow>
          (case getProp updated ''_id'' of
             Inl e \<Rightarrow> Inl e
           | Inr b \<Rightarrow> if strict_eq a b then Inr (Some i) else array_findIndex updated (Suc i) rs))"

definition upsertResume :: "localStorage \<Rightarrow> json \<Rightarrow> (thrown + unit) \<times> localStorage" where
  "upsertResume ls updated =
     (case getResumes ls of
        (JArr rs, ls1) \<Rightarrow>
          (case array_findIndex updated 0 rs of
             Inl e \<Rightarrow> (Inl e, ls1)
           | Inr (Some idx) \<Rightarrow> (Inr (), setResumes ls1 (JArr (rs[idx := updated])))
           | Inr None \<Rightarrow> (Inr (), setResumes ls1 (JArr (rs @ [updated]))))
      | (other, ls1) \<Rightarrow> (Inl TypeError, ls1))"

section \<open>Strings\<close>

text \<open>
  The characters that \<^verbatim>\<open>\s\<close> matches and \<^verbatim>\<open>trim\<close> removes, among the code units below
  256: tab, line feed, vertical tab, form feed, carriage return, space, no-break space.
\<close>

definition is_space :: "char \<Rightarrow> bool" where
  "is_space c = ((of_char c :: nat) \<in> {9, 10, 11, 12, 13, 32, 160})"

definition trim :: "string \<Rightarrow> string" where
  "trim s = rev (dropWhile is_space (rev (dropWhile is_space s)))"

text \<open>\<^verbatim>\<open>s.replace(/\s+/g, " ")\<close>: every maximal run of white space becomes one space.\<close>

function collapse_spaces :: "string \<Rightarrow> string" where
  "collapse_spaces [] = []"
| "collapse_spaces (c # cs) =
     (if is_space c then CHR '' '' # collapse_spaces (dropWhile is_space cs)
      else c # collapse_spaces cs)"
  by pat_completeness auto
termination
  by (relation "measure length") (auto simp: less_Suc_eq_le length_dropWhile_le)

text \<open>
  The regular expression \<^verbatim>\<open>/"([\s\S]*)"/\<close>, as a backtracking matcher runs it.
  \<open>greedy_to_quote cs\<close> is the group \<^verbatim>\<open>([\s\S]*)\<close> followed by the closing quote, tried
  at the start of \<open>cs\<close>: the star first takes every character and gives characters back
  until a double quote follows, so the longest candidate wins. \<open>match_quoted\<close> tries the
  start positions from left to right and returns the captured group of the first
  position that matches (\<open>None\<close> is the \<^verbatim>\<open>null\<close> of \<^verbatim>\<open>String.prototype.match\<close>).
\<close>

fun greedy_to_quote :: "string \<Rightarrow> string option" where
  "greedy_to_quote [] = None"
| "greedy_to_quote (c # cs) =
     (case greedy_to_quote cs of
        Some g \<Rightarrow> Some (c # g)
      | None \<Rightarrow> if c = CHR 0x22 then Some [] else None)"

fun match_quoted :: "string \<Rightarrow> string option" where
  "match_quoted [] = None"
| "match_quoted (c # cs) =
     (if c = CHR 0x22
      then (case greedy_to_quote cs of Some g \<Rightarrow> Some g | None \<Rightarrow> match_quoted cs)
      else match_quoted cs)"

text \<open>\<^verbatim>\<open>String.prototype.startsWith\<close> and \<^verbatim>\<open>endsWith\<close>.\<close>

definition startsWith :: "string \<Rightarrow> string \<Rightarrow> bool" where
  "startsWith s p = (take (length p) s = p)"

definition endsWith :: "string \<Rightarrow> string \<Rightarrow> bool" where
  "endsWith s p = (length p \<le> length s \<and> drop (length s - length p) s = p)"

text \<open>
  The method call \<^verbatim>\<open>v.toString()\<close>. \<^verbatim>\<open>null\<close> has no properties. A boolean, a number and
  a string have the method of their prototype. An array joins the strings of its
  elements with commas (\<open>join_elements\<close>): a \<^verbatim>\<open>null\<close> element gives the empty string,
  every other element is converted by its own \<^verbatim>\<open>toString\<close>. An object inherits
  \<^verbatim>\<open>Object.prototype.toString\<close>, which gives \<^verbatim>\<open>[object Object]\<close>, unless it has an own
  property \<^verbatim>\<open>toString\<close>: the value of that property is data, not a function, so the
  call (and likewise the conversion of the object as an element of an array) throws a
  TypeError.
\<close>

fun join_comma :: "string list \<Rightarrow> string" where
  "join_comma [] = []"
| "join_comma [s] = s"
| "join_comma (s # t # ss) = s @ '','' @ join_comma (t # ss)"

fun toString :: "platform \<Rightarrow> json \<Rightarrow> thrown + string"
  and join_elements :: "platform \<Rightarrow> json list \<Rightarrow> thrown + string list" where
  "toString pf JNull = Inl TypeError"
| "toString pf (JBool b) = Inr (if b then ''true'' else ''false'')"
| "toString pf (JNum n) = Inr (numberToString pf n)"
| "toString pf (JStr s) = Inr s"
| "toString pf (JArr xs) =
     (case join_elements pf xs of Inl e \<Rightarrow> Inl e | Inr ss \<Rightarrow> Inr (join_comma ss))"
| "toString pf (JObj kvs) =
     (if map_of kvs ''toString'' = None then Inr ''[object Object]'' else Inl TypeError)"
| "join_elements pf [] = Inr []"
| "join_elements pf (x # xs) =
     (case (if x = JNull then Inr [] else toString pf x) of
        Inl e \<Rightarrow> Inl e
      | Inr s \<Rightarrow> (case join_elements pf xs of Inl e \<Rightarrow> Inl e | Inr ss \<Rightarrow> Inr (s # ss)))"

section \<open>Text enhancement stub\<close>

definition boilerplate :: string where
  "boilerplate = ''Results-driven professional with a strong focus on impact. ''"

text \<open>
  \<^verbatim>\<open>enhanceText(prompt)\<close>. An undefined or \<^verbatim>\<open>null\<close> prompt skips the match and gives the
  empty base; a prompt that is not a string has no \<^verbatim>\<open>match\<close> method.
\<close>

definition enhanceText :: "json option \<Rightarrow> thrown + string" where
  "enhanceText prompt =
     (case prompt of
        None \<Rightarrow> Inr []
      | Some JNull \<Rightarrow> Inr []
      | Some (JStr p) \<Rightarrow>
          (let base = trim (case match_quoted p of Some g \<Rightarrow> g | None \<Rightarrow> p) in
           if base = [] then Inr []
           else (let cleaned = trim (collapse_spaces base) in
                 if length cleaned < 80 then Inr (boilerplate @ cleaned) else Inr cleaned))
      | Some other \<Rightarrow> Inl TypeError)"

section \<open>Request bodies\<close>

text \<open>
  A request body is absent, a plain JSON value, or a \<^verbatim>\<open>FormData\<close>. Of a \<^verbatim>\<open>FormData\<close> the
  program reads the parts \<^verbatim>\<open>resumeId\<close>, \<^verbatim>\<open>resumeData\<close> and \<^verbatim>\<open>image\<close>; a part is absent
  (\<^verbatim>\<open>get\<close> returns \<^verbatim>\<open>null\<close>), a string or a file. The \<^verbatim>\<open>resumeData\<close> string is only
  tested for emptiness and parsed, so it is an \<open>item\<close>. A file is represented by what
  \<^verbatim>\<open>FileReader.readAsDataURL\<close> makes of it: a data URL, or \<open>None\<close> when reading fails.
\<close>

datatype jsfile = File "string option"

datatype 'a entry = EString 'a | EFile jsfile

record formData =
  form_resumeId :: "string entry option"
  form_resumeData :: "item entry option"
  form_image :: "string entry option"

datatype body = NoBody | JsonBody json | FormBody formData

text \<open>\<^verbatim>\<open>body?.k\<close>: undefined for a missing or \<^verbatim>\<open>null\<close> body, and for a \<^verbatim>\<open>FormData\<close>.\<close>

definition bodyProp :: "body \<Rightarrow> string \<Rightarrow> json option" where
  "bodyProp b k =
     (case b of
        JsonBody v \<Rightarrow> (case getProp v k of Inr x \<Rightarrow> x | Inl e \<Rightarrow> None)
      | other \<Rightarrow> None)"

text \<open>\<^verbatim>\<open>fileToDataUrl\<close>: the promise resolves with the data URL or rejects.\<close>

definition fileToDataUrl :: "jsfile \<Rightarrow> thrown + string" where
  "fileToDataUrl f = (case f of File (Some url) \<Rightarrow> Inr url | File None \<Rightarrow> Inl (JsError ''Failed to read image file''))"

section \<open>Objects\<close>

fun digit10 :: "nat \<Rightarrow> char" where
  "digit10 d = ''0123456789'' ! d"

fun show_nat :: "nat \<Rightarrow> string" where
  "show_nat n = (if n < 10 then [digit10 n] else show_nat (n div 10) @ [digit10 (n mod 10)])"

declare show_nat.simps [simp del]

text \<open>
  The own enumerable properties that a spread \<^verbatim>\<open>{...v}\<close> copies: the entries of an
  object, the indexed elements of an array, the indexed characters of a string, and
  nothing for any other value.
\<close>

definition own_props :: "json \<Rightarrow> (string \<times> json) list" where
  "own_props v =
     (case v of
        JObj kvs \<Rightarrow> kvs
      | JArr xs \<Rightarrow> zip (map show_nat [0..<length xs]) xs
      | JStr s \<Rightarrow> zip (map show_nat [0..<length s]) (map (\<lambda>c. JStr [c]) s)
      | other \<Rightarrow> [])"

text \<open>
  An object lists its array indices first, in ascending order, and then its other keys in
  the order of their creation. An array index is the decimal form, without a leading
  zero, of an integer below \<open>2\<^sup>3\<^sup>2 - 1\<close>. \<open>set_prop\<close> creates or overwrites one
  property: a key that is already there keeps its position, a new array index goes in
  front of the first key that is a greater array index or no array index, any other new
  key goes to the end.
\<close>

definition is_digit :: "char \<Rightarrow> bool" where
  "is_digit c = ((of_char c :: nat) \<in> {48, 49, 50, 51, 52, 53, 54, 55, 56, 57})"

definition digits_value :: "string \<Rightarrow> nat" where
  "digits_value k = foldl (\<lambda>n c. 10 * n + (of_char c - 48)) 0 k"

definition array_index :: "string \<Rightarrow> nat option" where
  "array_index k =
     (if k \<noteq> [] \<and> list_all is_digit k \<and> (if hd k = CHR ''0'' then k = ''0'' else True)
         \<and> digits_value k < 4294967295
      then Some (digits_value k) else None)"

fun insert_index :: "nat \<Rightarrow> string \<Rightarrow> json \<Rightarrow> (string \<times> json) list \<Rightarrow> (string \<times> json) list" where
  "insert_index n k v [] = [(k, v)]"
| "insert_index n k v (p # kvs) =
     (case array_index (fst p) of
        Some m \<Rightarrow> if m < n then p # insert_index n k v kvs else (k, v) # p # kvs
      | None \<Rightarrow> (k, v) # p # kvs)"

definition set_prop :: "string \<Rightarrow> json \<Rightarrow> (string \<times> json) list \<Rightarrow> (string \<times> json) list" where
  "set_prop k v kvs =
     (case array_index k of
        None \<Rightarrow> AList.update k v kvs
      | Some n \<Rightarrow> if map_of kvs k = None then insert_index n k v kvs else AList.update k v kvs)"

text \<open>The spread \<^verbatim>\<open>...v\<close> inside an object literal whose properties so far are \<open>acc\<close>.\<close>

definition spread_into :: "(string \<times> json) list \<Rightarrow> json \<Rightarrow> (string \<times> json) list" where
  "spread_into acc v = fold (\<lambda>(k, x). set_prop k x) (own_props v) acc"

text \<open>
  The object literal \<^verbatim>\<open>next\<close> of the update handler, evaluated left to right: spread
  \<^verbatim>\<open>existing\<close>, spread \<^verbatim>\<open>resumeData\<close>, set \<^verbatim>\<open>personal_info\<close> to the one-level merge, set
  \<^verbatim>\<open>updatedAt\<close>. Reading \<^verbatim>\<open>personal_info\<close> of a \<^verbatim>\<open>null\<close> operand throws.
\<close>

definition build_next :: "json \<Rightarrow> json \<Rightarrow> string \<Rightarrow> thrown + json" where
  "build_next existing resumeData now =
     (let o2 = spread_into (spread_into [] existing) resumeData in
      case getProp existing ''personal_info'' of
        Inl e \<Rightarrow> Inl e
      | Inr pe \<Rightarrow>
          (case getProp resumeData ''personal_info'' of
             Inl e \<Rightarrow> Inl e
           | Inr pd \<Rightarrow>
               (let info = spread_into (spread_into [] (or_else pe (JObj []))) (or_else pd (JObj []));
                    o3 = AList.update ''personal_info'' (JObj info) o2
                in Inr (JObj (AList.update ''updatedAt'' (JStr now) o3)))))"

text \<open>
  The \<^verbatim>\<open>if (imageFile)\<close> block: on success \<^verbatim>\<open>personal_info\<close> is replaced by a copy with
  the \<^verbatim>\<open>image\<close> key set; a failed conversion is caught and changes nothing.
\<close>

definition embed_image :: "json \<Rightarrow> jsfile option \<Rightarrow> json" where
  "embed_image next imageFile =
     (case imageFile of
        None \<Rightarrow> next
      | Some f \<Rightarrow>
          (case fileToDataUrl f of
             Inl e \<Rightarrow> next
           | Inr dataUrl \<Rightarrow>
               (case next of
                  JObj kvs \<Rightarrow>
                    JObj (AList.update ''personal_info''
                      (JObj (AList.update ''image'' (JStr dataUrl)
                         (spread_into [] (or_else (map_of kvs ''personal_info'') (JObj [])))))
                      kvs)
                | other \<Rightarrow> next)))"

text \<open>
  The first part of the update handler: \<^verbatim>\<open>resumeId\<close>, \<^verbatim>\<open>resumeData\<close> and \<^verbatim>\<open>imageFile\<close>
  from either kind of body. A file in the \<^verbatim>\<open>resumeId\<close> part is an object, which is
  truthy and strictly equal to no stored id; the text of a file in the \<^verbatim>\<open>resumeData\<close>
  part is \<^verbatim>\<open>[object File]\<close>.
\<close>

definition update_args :: "body \<Rightarrow> thrown + (json option \<times> json \<times> jsfile option)" where
  "update_args b =
     (case b of
        FormBody fd \<Rightarrow>
          (let resumeId = (case form_resumeId fd of
                             None \<Rightarrow> Some JNull
                           | Some (EString s) \<Rightarrow> Some (JStr s)
                           | Some (EFile f) \<Rightarrow> Some (JObj []));
               parsed = (case form_resumeData fd of
                           None \<Rightarrow> Inr (JObj [])
                         | Some (EString t) \<Rightarrow> if no_item (Some t) then Inr (JObj []) else JSON_parse t
                         | Some (EFile f) \<Rightarrow> JSON_parse (Raw ''[object File]''));
               imageFile = (case form_image fd of Some (EFile f) \<Rightarrow> Some f | other \<Rightarrow> None)
           in case parsed of
                Inl e \<Rightarrow> Inl e
              | Inr resumeData \<Rightarrow> Inr (resumeId, resumeData, imageFile))
      | other \<Rightarrow> Inr (bodyProp b ''resumeId'', or_else (bodyProp b ''resumeData'') (JObj []), None))"

section \<open>Sorting by recency\<close>

text \<open>
  The comparator of the list route, \<^verbatim>\<open>new Date(b.updatedAt).getTime() -
  new Date(a.updatedAt).getTime()\<close>; \<open>None\<close> is NaN.
\<close>

definition compare_updatedAt :: "platform \<Rightarrow> json \<Rightarrow> json \<Rightarrow> thrown + int option" where
  "compare_updatedAt pf a b =
     (case getProp b ''updatedAt'' of
        Inl e \<Rightarrow> Inl e
      | Inr ub \<Rightarrow>
          (case getProp a ''updatedAt'' of
             Inl e \<Rightarrow> Inl e
           | Inr ua \<Rightarrow>
               Inr (case (getTime pf ub, getTime pf ua) of
                      (Some tb, Some ta) \<Rightarrow> Some (tb - ta)
                    | other \<Rightarrow> None)))"

text \<open>
  \<^verbatim>\<open>Array.prototype.sort\<close> with a comparator. The engine sorts by calls of \<open>SortCompare\<close>,
  which is the comparator with a NaN result replaced by \<open>0\<close>. When \<open>SortCompare\<close> is a
  consistent comparator for the elements of the array (it returns a number for every
  pair, every element equals itself, equality is symmetric, and equality, less and
  greater are transitive), the language fixes the result: the elements in ascending order
  of the comparator, elements that compare equal in their original order. \<open>stable_sort\<close>
  computes that array by insertion from the right: an element goes in front of the first
  later element that it does not have to follow. For any other comparator, one that
  throws included, the language leaves the result to the engine: it is the parameter
  \<open>engineSort\<close>.
\<close>

definition SortCompare :: "(json \<Rightarrow> json \<Rightarrow> thrown + int option) \<Rightarrow> json \<Rightarrow> json \<Rightarrow> thrown + int" where
  "SortCompare cmp x y =
     (case cmp x y of Inl e \<Rightarrow> Inl e | Inr None \<Rightarrow> Inr 0 | Inr (Some d) \<Rightarrow> Inr d)"

definition consistent_comparator :: "(json \<Rightarrow> json \<Rightarrow> thrown + int) \<Rightarrow> json list \<Rightarrow> bool" where
  "consistent_comparator sc xs =
     list_all (\<lambda>a.
       sc a a = Inr 0 \<and>
       list_all (\<lambda>b.
         (case (sc a b, sc b a) of
            (Inr u, Inr v) \<Rightarrow> (u = 0) = (v = 0)
          | other \<Rightarrow> False) \<and>
         list_all (\<lambda>c.
           (case (sc a b, sc b c, sc a c) of
              (Inr u, Inr v, Inr w) \<Rightarrow>
                (if u = 0 \<and> v = 0 then w = 0 else True) \<and>
                (if u < 0 \<and> v < 0 then w < 0 else True) \<and>
                (if 0 < u \<and> 0 < v then 0 < w else True)
            | other \<Rightarrow> False)) xs) xs) xs"

fun sort_insert :: "(json \<Rightarrow> json \<Rightarrow> thrown + int) \<Rightarrow> json \<Rightarrow> json list \<Rightarrow> thrown + json list" where
  "sort_insert sc x [] = Inr [x]"
| "sort_insert sc x (y # ys) =
     (case sc x y of
        Inl e \<Rightarrow> Inl e
      | Inr d \<Rightarrow>
          if d \<le> 0 then Inr (x # y # ys)
          else (case sort_insert sc x ys of Inl e \<Rightarrow> Inl e | Inr zs \<Rightarrow> Inr (y # zs)))"

fun stable_sort :: "(json \<Rightarrow> json \<Rightarrow> thrown + int) \<Rightarrow> json list \<Rightarrow> thrown + json list" where
  "stable_sort sc [] = Inr []"
| "stable_sort sc (x # xs) =
     (case stable_sort sc xs of Inl e \<Rightarrow> Inl e | Inr ys \<Rightarrow> sort_insert sc x ys)"

definition array_sort ::
  "platform \<Rightarrow> (json \<Rightarrow> json \<Rightarrow> thrown + int option) \<Rightarrow> json list \<Rightarrow> thrown + json list" where
  "array_sort pf cmp xs =
     (if consistent_comparator (SortCompare cmp) xs then stable_sort (SortCompare cmp) xs
      else engineSort pf cmp xs)"

text \<open>\<^verbatim>\<open>resumes.filter((r) => r._id !== resumeId)\<close> of the delete route.\<close>

fun array_filter_other :: "json option \<Rightarrow> json list \<Rightarrow> thrown + json list" where
  "array_filter_other resumeId [] = Inr []"
| "array_filter_other resumeId (r # rs) =
     (case getProp r ''_id'' of
        Inl e \<Rightarrow> Inl e
      | Inr i \<Rightarrow>
          (case array_filter_other resumeId rs of
             Inl e \<Rightarrow> Inl e
           | Inr ys \<Rightarrow> Inr (if strict_eq i resumeId then ys else r # ys)))"

section \<open>Request router\<close>

definition normalizeUrl :: "string \<Rightarrow> string" where
  "normalizeUrl url = (if url = [] then ''/'' else if startsWith url ''/'' then url else ''/'' @ url)"

text \<open>
  \<^verbatim>\<open>path.match(/^PREFIX(.+)$/)\<close>: the path starts with the prefix, and the rest is not
  empty and has no line terminator (which \<^verbatim>\<open>.\<close> does not match). The result is the
  captured group.
\<close>

definition is_line_terminator :: "char \<Rightarrow> bool" where
  "is_line_terminator c = (c = CHR 0x0A \<or> c = CHR 0x0D)"

definition match_param :: "string \<Rightarrow> string \<Rightarrow> string option" where
  "match_param prefix path =
     (let rest = drop (length prefix) path in
      if startsWith path prefix \<and> rest \<noteq> [] \<and> list_all (\<lambda>c. \<not> is_line_terminator c) rest
      then Some rest else None)"

text \<open>The resume literal of the create and upload routes.\<close>

definition new_resume :: "string \<Rightarrow> string \<Rightarrow> string \<Rightarrow> string \<Rightarrow> string \<Rightarrow> json" where
  "new_resume rid title summary created updated =
     JObj [(''_id'', JStr rid), (''title'', JStr title), (''personal_info'', JObj []),
           (''professional_summary'', JStr summary), (''experience'', JArr []),
           (''education'', JArr []), (''project'', JArr []), (''skills'', JArr []),
           (''template'', JStr ''classic''), (''accent_color'', JStr ''#3B82F6''),
           (''public'', JBool False), (''createdAt'', JStr created), (''updatedAt'', JStr updated)]"

text \<open>\<^verbatim>\<open>body?.name?.trim() || fallback\<close> of the login route.\<close>

definition trimmed_or :: "json option \<Rightarrow> string \<Rightarrow> thrown + string" where
  "trimmed_or v fallback =
     (case v of
        None \<Rightarrow> Inr fallback
      | Some JNull \<Rightarrow> Inr fallback
      | Some (JStr s) \<Rightarrow> Inr (if trim s = [] then fallback else trim s)
      | Some other \<Rightarrow> Inl TypeError)"

definition not_found :: thrown where
  "not_found = Structured (axiosLikeError ''Resume not found'' (Some 404))"

definition users_login :: "localStorage \<Rightarrow> string \<Rightarrow> body \<Rightarrow> (thrown + json) \<times> localStorage" where
  "users_login ls path b =
     (case trimmed_or (bodyProp b ''name'') ''Joe Doe'' of
        Inl e \<Rightarrow> (Inl e, ls)
      | Inr name \<Rightarrow>
          (case trimmed_or (bodyProp b ''email'') ''joe@example.com'' of
             Inl e \<Rightarrow> (Inl e, ls)
           | Inr email \<Rightarrow>
               (let token = ''local_token'';
                    user = JObj [(''_id'', JStr ''local_user''), (''name'', JStr name),
                                 (''email'', JStr email)];
                    ls1 = writeJson ls LS_KEYS_user user;
                    ls2 = ls1(LS_KEYS_token \<mapsto> Raw token)
                in (Inr (JObj [(''token'', JStr token), (''user'', user),
                               (''message'', JStr (if endsWith path ''register''
                                                   then ''Registered (local)''
                                                   else ''Logged in (local)''))]), ls2))))"

definition resumes_create :: "platform \<Rightarrow> env \<Rightarrow> localStorage \<Rightarrow> body \<Rightarrow> (thrown + json) \<times> localStorage" where
  "resumes_create pf e ls b =
     (case toString pf (or_else (bodyProp b ''title'') (JStr ''Untitled Resume'')) of
        Inl err \<Rightarrow> (Inl err, ls)
      | Inr title \<Rightarrow>
          (let resume = new_resume (makeId (Some ''resume'') e) title [] (nowIso1 e) (nowIso2 e)
           in case upsertResume ls resume of
                (Inl err, ls1) \<Rightarrow> (Inl err, ls1)
              | (Inr u, ls1) \<Rightarrow>
                  (Inr (JObj [(''resume'', resume), (''message'', JStr ''Resume created'')]), ls1)))"

definition resumes_get :: "platform \<Rightarrow> localStorage \<Rightarrow> string \<Rightarrow> (thrown + json) \<times> localStorage" where
  "resumes_get pf ls param =
     (case decodeURIComponent pf param of
        None \<Rightarrow> (Inl URIError, ls)
      | Some resumeId \<Rightarrow>
          (case findResume ls (Some (JStr resumeId)) of
             (Inl err, ls1) \<Rightarrow> (Inl err, ls1)
           | (Inr None, ls1) \<Rightarrow> (Inl not_found, ls1)
           | (Inr (Some resume), ls1) \<Rightarrow> (Inr (JObj [(''resume'', resume)]), ls1)))"

definition resumes_public :: "platform \<Rightarrow> localStorage \<Rightarrow> string \<Rightarrow> (thrown + json) \<times> localStorage" where
  "resumes_public pf ls param =
     (case decodeURIComponent pf param of
        None \<Rightarrow> (Inl URIError, ls)
      | Some resumeId \<Rightarrow>
          (case findResume ls (Some (JStr resumeId)) of
             (Inl err, ls1) \<Rightarrow> (Inl err, ls1)
           | (Inr None, ls1) \<Rightarrow> (Inl not_found, ls1)
           | (Inr (Some resume), ls1) \<Rightarrow>
               (case getProp resume ''public'' of
                  Inl err \<Rightarrow> (Inl err, ls1)
                | Inr pub \<Rightarrow>
                    if \<not> truthy_opt pub then (Inl not_found, ls1)
                    else (Inr (JObj [(''resume'', resume)]), ls1))))"

definition resumes_update :: "env \<Rightarrow> localStorage \<Rightarrow> body \<Rightarrow> (thrown + json) \<times> localStorage" where
  "resumes_update e ls b =
     (case update_args b of
        Inl err \<Rightarrow> (Inl err, ls)
      | Inr (resumeId, resumeData, imageFile) \<Rightarrow>
          if \<not> truthy_opt resumeId
          then (Inl (Structured (axiosLikeError ''resumeId is required'' (Some 400))), ls)
          else
            (case findResume ls resumeId of
               (Inl err, ls1) \<Rightarrow> (Inl err, ls1)
             | (Inr None, ls1) \<Rightarrow> (Inl not_found, ls1)
             | (Inr (Some existing), ls1) \<Rightarrow>
                 (case build_next existing resumeData (nowIso1 e) of
                    Inl err \<Rightarrow> (Inl err, ls1)
                  | Inr next0 \<Rightarrow>
                      (let next = embed_image next0 imageFile in
                       case upsertResume ls1 next of
                         (Inl err, ls2) \<Rightarrow> (Inl err, ls2)
                       | (Inr u, ls2) \<Rightarrow>
                           (Inr (JObj [(''resume'', next), (''message'', JStr ''Resume updated'')]),
                            ls2)))))"

definition resumes_delete :: "platform \<Rightarrow> localStorage \<Rightarrow> string \<Rightarrow> (thrown + json) \<times> localStorage" where
  "resumes_delete pf ls param =
     (case decodeURIComponent pf param of
        None \<Rightarrow> (Inl URIError, ls)
      | Some resumeId \<Rightarrow>
          (case getResumes ls of
             (JArr rs, ls1) \<Rightarrow>
               (case array_filter_other (Some (JStr resumeId)) rs of
                  Inl err \<Rightarrow> (Inl err, ls1)
                | Inr next \<Rightarrow>
                    (Inr (JObj [(''message'', JStr ''Resume deleted'')]), setResumes ls1 (JArr next)))
           | (other, ls1) \<Rightarrow> (Inl TypeError, ls1)))"

definition users_resumes :: "platform \<Rightarrow> localStorage \<Rightarrow> (thrown + json) \<times> localStorage" where
  "users_resumes pf ls =
     (case getResumes ls of
        (JArr rs, ls1) \<Rightarrow>
          (case array_sort pf (compare_updatedAt pf) rs of
             Inl err \<Rightarrow> (Inl err, ls1)
           | Inr ordered \<Rightarrow> (Inr (JObj [(''resumes'', JArr ordered)]), ls1))
      | (other, ls1) \<Rightarrow> (Inl TypeError, ls1))"

definition ai_enhance :: "localStorage \<Rightarrow> body \<Rightarrow> (thrown + json) \<times> localStorage" where
  "ai_enhance ls b =
     (case enhanceText (bodyProp b ''userContent'') of
        Inl err \<Rightarrow> (Inl err, ls)
      | Inr content \<Rightarrow> (Inr (JObj [(''enhancedContent'', JStr content)]), ls))"

definition ai_upload :: "platform \<Rightarrow> env \<Rightarrow> localStorage \<Rightarrow> body \<Rightarrow> (thrown + json) \<times> localStorage" where
  "ai_upload pf e ls b =
     (case toString pf (or_else (bodyProp b ''title'') (JStr ''Uploaded Resume'')) of
        Inl err \<Rightarrow> (Inl err, ls)
      | Inr title \<Rightarrow>
          (case toString pf (or_else (bodyProp b ''resumeText'') (JStr [])) of
             Inl err \<Rightarrow> (Inl err, ls)
           | Inr resumeText \<Rightarrow>
               (let rid = makeId (Some ''resume'') e;
                    resume = new_resume rid title (slice 0 600 (trim resumeText)) (nowIso1 e) (nowIso2 e)
                in case upsertResume ls resume of
                     (Inl err, ls1) \<Rightarrow> (Inl err, ls1)
                   | (Inr u, ls1) \<Rightarrow>
                       (Inr (JObj [(''resumeId'', JStr rid),
                                   (''message'', JStr ''Resume uploaded'')]), ls1))))"

text \<open>
  \<^verbatim>\<open>handleRequest(method, url, body)\<close>: the chain of \<^verbatim>\<open>if\<close> statements in the order of
  the source. The result is the value the promise resolves with or the value it rejects
  with, and the storage the call leaves behind. A request runs to its end before the
  next one starts; an undefined \<^verbatim>\<open>url\<close> is the empty string.
\<close>

definition handleRequest ::
  "platform \<Rightarrow> env \<Rightarrow> localStorage \<Rightarrow> string \<Rightarrow> string \<Rightarrow> body \<Rightarrow> (thrown + json) \<times> localStorage" where
  "handleRequest pf e ls0 method url b =
     (let ls = ensureSeed ls0;
          path = normalizeUrl url
      in
      if method = ''GET'' \<and> path = ''/api/users/data''
        then (Inr (JObj [(''user'', readJson ls LS_KEYS_user JNull)]), ls)
      else if method = ''GET'' \<and> path = ''/api/users/resumes''
        then users_resumes pf ls
      else if method = ''POST'' \<and> (path = ''/api/users/login'' \<or> path = ''/api/users/register'')
        then users_login ls path b
      else if method = ''POST'' \<and> path = ''/api/resumes/create''
        then resumes_create pf e ls b
      else if method = ''GET'' \<and> match_param ''/api/resumes/get/'' path \<noteq> None
        then resumes_get pf ls (the (match_param ''/api/resumes/get/'' path))
      else if method = ''GET'' \<and> match_param ''/api/resumes/public/'' path \<noteq> None
        then resumes_public pf ls (the (match_param ''/api/resumes/public/'' path))
      else if method = ''PUT'' \<and> path = ''/api/resumes/update''
        then resumes_update e ls b
      else if method = ''DELETE'' \<and> match_param ''/api/resumes/delete/'' path \<noteq> None
        then resumes_delete pf ls (the (match_param ''/api/resumes/delete/'' path))
      else if method = ''POST'' \<and> path = ''/api/ai/enhance-pro-sum''
        then ai_enhance ls b
      else if method = ''POST'' \<and> path = ''/api/ai/enhance-job-desc''
        then ai_enhance ls b
      else if method = ''POST'' \<and> path = ''/api/ai/upload-resume''
        then ai_upload pf e ls b
      else (Inl (Structured (axiosLikeError (''No local route for '' @ method @ '' '' @ path) (Some 404))),
            ls))"

text \<open>
  The four verbs of the exported \<^verbatim>\<open>api\<close> object: the result is wrapped as \<^verbatim>\<open>{ data }\<close>, a
  failure is thrown again as it is.
\<close>

definition envelope :: "(thrown + json) \<times> localStorage \<Rightarrow> (thrown + json) \<times> localStorage" where
  "envelope r = (case r of (Inl err, ls) \<Rightarrow> (Inl err, ls) | (Inr d, ls) \<Rightarrow> (Inr (JObj [(''data'', d)]), ls))"

definition api_get :: "platform \<Rightarrow> env \<Rightarrow> localStorage \<Rightarrow> string \<Rightarrow> (thrown + json) \<times> localStorage" where
  "api_get pf e ls url = envelope (handleRequest pf e ls ''GET'' url NoBody)"

definition api_post :: "platform \<Rightarrow> env \<Rightarrow> localStorage \<Rightarrow> string \<Rightarrow> body \<Rightarrow> (thrown + json) \<times> localStorage" where
  "api_post pf e ls url b = envelope (handleRequest pf e ls ''POST'' url b)"

definition api_put :: "platform \<Rightarrow> env \<Rightarrow> localStorage \<Rightarrow> string \<Rightarrow> body \<Rightarrow> (thrown + json) \<times> localStorage" where
  "api_put pf e ls url b = envelope (handleRequest pf e ls ''PUT'' url b)"

definition api_delete :: "platform \<Rightarrow> env \<Rightarrow> localStorage \<Rightarrow> string \<Rightarrow> (thrown + json) \<times> localStorage" where
  "api_delete pf e ls url = envelope (handleRequest pf e ls ''DELETE'' url NoBody)"

section \<open>Definitions used to state the properties\<close>

text \<open>
  A stored text from which \<^verbatim>\<open>readJson(key, null)\<close> gets nothing truthy: the key is
  missing, or its text is not valid JSON (the empty text included), or it is the JSON
  text of \<^verbatim>\<open>null\<close>, \<^verbatim>\<open>false\<close>, \<^verbatim>\<open>0\<close> or \<^verbatim>\<open>""\<close>.
\<close>

definition no_usable_json :: "item option \<Rightarrow> bool" where
  "no_usable_json raw =
     (case raw of None \<Rightarrow> True | Some (Raw s) \<Rightarrow> True | Some (Encoded v) \<Rightarrow> \<not> truthy v)"

text \<open>A storage whose user key holds a text that is not JSON.\<close>

definition corrupted_user_store :: localStorage where
  "corrupted_user_store = [LS_KEYS_user \<mapsto> Raw ''{oops'']"

text \<open>
  The route table of the specification (section 6): the exact paths, and the three
  parameterised paths, where \<^verbatim>\<open>{id}\<close> stands for a non-empty rest of the path.
\<close>

definition spec_id_path :: "string \<Rightarrow> string \<Rightarrow> bool" where
  "spec_id_path prefix path = (startsWith path prefix \<and> length prefix < length path)"

definition spec_route_table :: "string \<Rightarrow> string \<Rightarrow> bool" where
  "spec_route_table method path =
     ((method = ''GET'' \<and> path = ''/api/users/data'')
    \<or> (method = ''GET'' \<and> path = ''/api/users/resumes'')
    \<or> (method = ''POST'' \<and> path = ''/api/users/login'')
    \<or> (method = ''POST'' \<and> path = ''/api/users/register'')
    \<or> (method = ''POST'' \<and> path = ''/api/resumes/create'')
    \<or> (method = ''GET'' \<and> spec_id_path ''/api/resumes/get/'' path)
    \<or> (method = ''GET'' \<and> spec_id_path ''/api/resumes/public/'' path)
    \<or> (method = ''PUT'' \<and> path = ''/api/resumes/update'')
    \<or> (method = ''DELETE'' \<and> spec_id_path ''/api/resumes/delete/'' path)
    \<or> (method = ''POST'' \<and> path = ''/api/ai/enhance-pro-sum'')
    \<or> (method = ''POST'' \<and> path = ''/api/ai/enhance-job-desc'')
    \<or> (method = ''POST'' \<and> path = ''/api/ai/upload-resume''))"

text \<open>
  A fragment of the runtime for concrete runs: the time values of five timestamps, and
  \<^verbatim>\<open>decodeURIComponent\<close> on strings without an escape, which it returns unchanged. No
  run below formats a number. Its engine sorts by insertion also when the comparator is
  not consistent; then it throws what the first failing call of the comparator throws.
\<close>

definition demo_getTime :: "json option \<Rightarrow> int option" where
  "demo_getTime v =
     (case v of
        Some (JStr s) \<Rightarrow>
          map_of [(''2024-01-01T00:00:00.000Z'', 1704067200000),
                  (''2024-01-01T00:00:00.001Z'', 1704067200001),
                  (''2024-01-02T00:00:00.000Z'', 1704153600000),
                  (''2024-01-03T00:00:00.000Z'', 1704240000000),
                  (''2024-01-04T00:00:00.000Z'', 1704326400000)] s
      | other \<Rightarrow> None)"

definition demo_platform :: platform where
  "demo_platform =
     \<lparr> getTime = demo_getTime,
       decodeURIComponent = (\<lambda>s. if CHR ''%'' \<in> set s then None else Some s),
       numberToString = (\<lambda>n. ''0''),
       engineSort = (\<lambda>cmp. stable_sort (SortCompare cmp)) \<rparr>"

definition demo_env :: env where
  "demo_env = \<lparr> dateNow = 1704067200000, mathRandom36 = ''0.4fzyo82mvyr'',
                nowIso1 = ''2024-01-01T00:00:00.000Z'', nowIso2 = ''2024-01-01T00:00:00.000Z'' \<rparr>"

text \<open>The double quote.\<close>

definition dq :: char where "dq = CHR 0x22"

text \<open>What stands between the first and the last double quote of a prompt.\<close>

definition between_outer_quotes :: "string \<Rightarrow> string" where
  "between_outer_quotes p =
     rev (tl (dropWhile (\<lambda>c. c \<noteq> dq) (rev (tl (dropWhile (\<lambda>c. c \<noteq> dq) p)))))"

text \<open>
  The words of a string, that is its maximal runs of characters that are not white
  space, and the words joined by single spaces.
\<close>

function split_words :: "string \<Rightarrow> string list" where
  "split_words s =
     (case dropWhile is_space s of
        [] \<Rightarrow> []
      | c # cs \<Rightarrow> (c # takeWhile (\<lambda>x. \<not> is_space x) cs)
                   # split_words (dropWhile (\<lambda>x. \<not> is_space x) cs))"
  by pat_completeness auto
termination
proof (relation "measure length", goal_cases)
  case 1
  show ?case by simp
next
  case (2 s c cs)
  have "length (dropWhile (\<lambda>x. \<not> is_space x) cs) \<le> length cs"
    by (rule length_dropWhile_le)
  moreover have "length (c # cs) \<le> length s"
    using 2 length_dropWhile_le [of is_space s] by simp
  ultimately show ?case by simp
qed

declare split_words.simps [simp del]

fun join_words :: "string list \<Rightarrow> string" where
  "join_words [] = []"
| "join_words [w] = w"
| "join_words (w # v # ws) = w @ '' '' @ join_words (v # ws)"

text \<open>
  The enhancement as the code computes it: the text between the outermost double quotes
  when the prompt has at least two double quotes, else the whole prompt; its words
  joined by single spaces; the boilerplate in front when that is not empty and shorter
  than 80 characters.
\<close>

definition selected_text :: "string \<Rightarrow> string" where
  "selected_text p = (if 2 \<le> count_list p dq then between_outer_quotes p else p)"

definition enhance_outer :: "string \<Rightarrow> string" where
  "enhance_outer p =
     (let cleaned = join_words (split_words (selected_text p))
      in if cleaned \<noteq> [] \<and> length cleaned < 80 then boilerplate @ cleaned else cleaned)"

text \<open>
  The enhancement as the specification words it: the first double-quoted substring is
  what stands between the first double quote and the next one.
\<close>

definition first_quoted :: "string \<Rightarrow> string option" where
  "first_quoted p =
     (case dropWhile (\<lambda>c. c \<noteq> dq) p of
        [] \<Rightarrow> None
      | q # rest \<Rightarrow> if dq \<in> set rest then Some (takeWhile (\<lambda>c. c \<noteq> dq) rest) else None)"

definition spec_enhance :: "string \<Rightarrow> string" where
  "spec_enhance p =
     (let selected = (case first_quoted p of Some g \<Rightarrow> g | None \<Rightarrow> p);
          cleaned = join_words (split_words selected)
      in if cleaned \<noteq> [] \<and> length cleaned < 80 then boilerplate @ cleaned else cleaned)"

definition two_quotations :: string where
  \<open>two_quotations = ''say "a" and "b"''\<close>

text \<open>
  The \<^verbatim>\<open>updatedAt\<close> of a stored resume, its time value (\<open>0\<close> stands in where the date
  is not valid), and the resumes the comparator of the list route can compare: every
  value but \<^verbatim>\<open>null\<close> whose \<^verbatim>\<open>updatedAt\<close> is a valid date.
\<close>

definition updatedAt_of :: "json \<Rightarrow> json option" where
  "updatedAt_of r = (case getProp r ''updatedAt'' of Inr v \<Rightarrow> v | Inl e \<Rightarrow> None)"

definition time_of :: "platform \<Rightarrow> json \<Rightarrow> int" where
  "time_of pf r = (case getTime pf (updatedAt_of r) of Some t \<Rightarrow> t | None \<Rightarrow> 0)"

definition dated :: "platform \<Rightarrow> json \<Rightarrow> bool" where
  "dated pf r = (r \<noteq> JNull \<and> getTime pf (updatedAt_of r) \<noteq> None)"

text \<open>The resume collection as the repository reads it.\<close>

definition collection :: "localStorage \<Rightarrow> json" where
  "collection ls = fst (getResumes ls)"

text \<open>
  The title that the create route takes from a body, \<^verbatim>\<open>(body?.title || "Untitled
  Resume").toString()\<close>, and the resume that it builds from a title and the readings of a
  request.
\<close>

definition create_title :: "platform \<Rightarrow> body \<Rightarrow> thrown + string" where
  "create_title pf b = toString pf (or_else (bodyProp b ''title'') (JStr ''Untitled Resume''))"

definition created :: "env \<Rightarrow> string \<Rightarrow> json" where
  "created e title = new_resume (makeId (Some ''resume'') e) title [] (nowIso1 e) (nowIso2 e)"

text \<open>An update request for a resume id with an empty \<^verbatim>\<open>resumeData\<close>.\<close>

definition update_empty :: "string \<Rightarrow> body" where
  "update_empty rid = JsonBody (JObj [(''resumeId'', JStr rid), (''resumeData'', JObj [])])"

text \<open>
  The list-ordering scenario of the specification: three resumes are created, the second
  one is updated, and the list is fetched.
\<close>

definition list_ordering_scenario ::
  "platform \<Rightarrow> env \<Rightarrow> env \<Rightarrow> env \<Rightarrow> env \<Rightarrow> env \<Rightarrow> body \<Rightarrow> body \<Rightarrow> body \<Rightarrow> localStorage \<Rightarrow> thrown + json" where
  "list_ordering_scenario pf e1 e2 e3 e4 e5 b1 b2 b3 s0 =
     (let s1 = snd (handleRequest pf e1 s0 ''POST'' ''/api/resumes/create'' b1);
          s2 = snd (handleRequest pf e2 s1 ''POST'' ''/api/resumes/create'' b2);
          s3 = snd (handleRequest pf e3 s2 ''POST'' ''/api/resumes/create'' b3);
          s4 = snd (handleRequest pf e4 s3 ''PUT'' ''/api/resumes/update''
                      (update_empty (makeId (Some ''resume'') e2)))
      in fst (handleRequest pf e5 s4 ''GET'' ''/api/users/resumes'' NoBody))"

text \<open>
  The stored resumes ordered by \<^verbatim>\<open>updatedAt\<close> descending, resumes with equal time values in
  their stored order.
\<close>

definition newest_first :: "platform \<Rightarrow> json list \<Rightarrow> json list" where
  "newest_first pf rs = sort_key (\<lambda>r. - time_of pf r) rs"

text \<open>Readings of later requests, and a collection with two resumes of the same time.\<close>

definition demo_env2 :: env where
  "demo_env2 = \<lparr> dateNow = 1704153600000, mathRandom36 = ''0.9k2x7c1qpd'',
                 nowIso1 = ''2024-01-02T00:00:00.000Z'', nowIso2 = ''2024-01-02T00:00:00.000Z'' \<rparr>"

definition demo_env3 :: env where
  "demo_env3 = \<lparr> dateNow = 1704240000000, mathRandom36 = ''0.b81jz03hw5'',
                 nowIso1 = ''2024-01-03T00:00:00.000Z'', nowIso2 = ''2024-01-03T00:00:00.000Z'' \<rparr>"

definition demo_env4 :: env where
  "demo_env4 = \<lparr> dateNow = 1704326400000, mathRandom36 = ''0.u6m2e9xk4t'',
                 nowIso1 = ''2024-01-04T00:00:00.000Z'', nowIso2 = ''2024-01-04T00:00:00.000Z'' \<rparr>"

definition stamped :: "string \<Rightarrow> string \<Rightarrow> json" where
  "stamped rid t = JObj [(''_id'', JStr rid), (''updatedAt'', JStr t)]"

definition tied_store :: localStorage where
  "tied_store =
     [LS_KEYS_resumes \<mapsto> Encoded (JArr [stamped ''a'' ''2024-01-01T00:00:00.000Z'',
                                            stamped ''b'' ''2024-01-02T00:00:00.000Z'',
                                            stamped ''c'' ''2024-01-02T00:00:00.000Z''])]"

text \<open>
  A storage whose collection has a \<^verbatim>\<open>null\<close> entry in front of a resume, and a storage whose
  collection key holds a JSON object instead of an array.
\<close>

definition null_entry_store :: localStorage where
  "null_entry_store =
     [LS_KEYS_resumes \<mapsto> Encoded (JArr [JNull, stamped ''a'' ''2024-01-01T00:00:00.000Z''])]"

definition object_store :: localStorage where
  "object_store =
     [LS_KEYS_resumes \<mapsto> Encoded (JObj [(''a'', stamped ''a'' ''2024-01-01T00:00:00.000Z'')])]"

text \<open>
  Readings of a request during which the clock ticks between the two calls of \<^verbatim>\<open>nowIso()\<close>, and
  a create body with the title of the specification's round trip.
\<close>

definition tick_env :: env where
  "tick_env = \<lparr> dateNow = 1704067200000, mathRandom36 = ''0.4fzyo82mvyr'',
                nowIso1 = ''2024-01-01T00:00:00.000Z'', nowIso2 = ''2024-01-01T00:00:00.001Z'' \<rparr>"

definition my_cv :: body where
  "my_cv = JsonBody (JObj [(''title'', JStr ''My CV'')])"

text \<open>
  The properties that a spread of a value copies, as a map; and the objects whose keys are
  pairwise distinct, as the keys of every parsed object are.
\<close>

definition object_map :: "json \<Rightarrow> string \<rightharpoonup> json" where
  "object_map v = map_of (rev (own_props v))"

definition distinct_keys :: "json \<Rightarrow> bool" where
  "distinct_keys v = (case v of JObj kvs \<Rightarrow> distinct (map fst kvs) | other \<Rightarrow> True)"

text \<open>
  A seeded storage with one resume, and an update request for an id that is not stored.
\<close>

definition seeded_store :: localStorage where
  "seeded_store =
     [LS_KEYS_user \<mapsto> Encoded default_user, LS_KEYS_token \<mapsto> Raw ''local_token'',
      LS_KEYS_resumes \<mapsto> Encoded (JArr [new_resume ''r1'' ''First'' []
                                 ''2024-01-01T00:00:00.000Z'' ''2024-01-01T00:00:00.000Z''])]"

definition unknown_id_body :: body where
  "unknown_id_body = JsonBody (JObj [(''resumeId'', JStr ''r9''), (''resumeData'', JObj [])])"

text \<open>A storage whose collection key holds a text that is not JSON.\<close>

definition corrupted_collection_store :: localStorage where
  "corrupted_collection_store =
     [LS_KEYS_user \<mapsto> Encoded default_user, LS_KEYS_token \<mapsto> Raw ''local_token'',
      LS_KEYS_resumes \<mapsto> Raw ''[{oops'']"

text \<open>
  A multi-part body without a \<^verbatim>\<open>resumeId\<close> part whose \<^verbatim>\<open>resumeData\<close> part is not JSON, and a
  plain update of the stored resume \<^verbatim>\<open>r1\<close> whose \<^verbatim>\<open>resumeData\<close> carries another id.
\<close>

definition malformed_form :: formData where
  "malformed_form =
     \<lparr> form_resumeId = None, form_resumeData = Some (EString (Raw ''{oops'')), form_image = None \<rparr>"

definition rename_body :: body where
  "rename_body = JsonBody (JObj [(''resumeId'', JStr ''r1''),
                                 (''resumeData'', JObj [(''_id'', JStr ''r2'')])])"

text \<open>
  The \<^verbatim>\<open>personal_info || {}\<close> of an operand of the merge, and the entry that an image part
  adds to the merged \<^verbatim>\<open>personal_info\<close> when its conversion succeeds.
\<close>

definition personal_info_of :: "json \<Rightarrow> json" where
  "personal_info_of v =
     or_else (case getProp v ''personal_info'' of Inr x \<Rightarrow> x | Inl e \<Rightarrow> None) (JObj [])"

definition image_entry :: "jsfile option \<Rightarrow> string \<rightharpoonup> json" where
  "image_entry img =
     (case img of Some (File (Some url)) \<Rightarrow> [''image'' \<mapsto> JStr url] | other \<Rightarrow> Map.empty)"

text \<open>
  The partial-update example of the specification: a stored resume with
  \<^verbatim>\<open>personal_info = {city: X}\<close>, an update with \<^verbatim>\<open>personal_info = {country: Y}\<close>, and the
  merged resume.
\<close>

definition city_resume :: "string \<Rightarrow> json" where
  "city_resume updated =
     JObj [(''_id'', JStr ''r1''), (''title'', JStr ''First''),
           (''personal_info'', JObj [(''city'', JStr ''X'')]),
           (''public'', JBool False),
           (''createdAt'', JStr ''2024-01-01T00:00:00.000Z''), (''updatedAt'', JStr updated)]"

definition city_store :: localStorage where
  "city_store =
     [LS_KEYS_user \<mapsto> Encoded default_user, LS_KEYS_token \<mapsto> Raw ''local_token'',
      LS_KEYS_resumes \<mapsto> Encoded (JArr [city_resume ''2024-01-01T00:00:00.000Z''])]"

definition merged_city_resume :: "string \<Rightarrow> json" where
  "merged_city_resume updated =
     JObj [(''_id'', JStr ''r1''), (''title'', JStr ''First''),
           (''personal_info'', JObj [(''city'', JStr ''X''), (''country'', JStr ''Y'')]),
           (''public'', JBool False),
           (''createdAt'', JStr ''2024-01-01T00:00:00.000Z''), (''updatedAt'', JStr updated)]"

definition country_body :: body where
  "country_body =
     JsonBody (JObj [(''resumeId'', JStr ''r1''),
                     (''resumeData'', JObj [(''personal_info'', JObj [(''country'', JStr ''Y'')])])])"

text \<open>A plain update whose \<^verbatim>\<open>resumeId\<close> is the empty string.\<close>

definition empty_id_body :: body where
  "empty_id_body = JsonBody (JObj [(''resumeId'', JStr []), (''resumeData'', JObj [])])"

section \<open>Properties of the storage accessor and the seed initializer\<close>

lemma LS_KEYS_distinct:
  "LS_KEYS_user \<noteq> LS_KEYS_token" "LS_KEYS_user \<noteq> LS_KEYS_resumes"
  "LS_KEYS_token \<noteq> LS_KEYS_resumes" "LS_KEYS_token \<noteq> LS_KEYS_user"
  "LS_KEYS_resumes \<noteq> LS_KEYS_user" "LS_KEYS_resumes \<noteq> LS_KEYS_token"
  by (simp_all add: LS_KEYS_user_def LS_KEYS_token_def LS_KEYS_resumes_def)

lemma readJson_cases:
  "readJson ls key fallback =
     (case ls key of
        None \<Rightarrow> fallback
      | Some (Raw s) \<Rightarrow> fallback
      | Some (Encoded v) \<Rightarrow> v)"
  by (simp add: readJson_def readJson_try_def no_item_def JSON_parse_def
      split: option.splits item.splits)

lemma readJson_truthy_iff: "truthy (readJson ls key JNull) = (\<not> no_usable_json (ls key))"
  by (simp add: readJson_cases no_usable_json_def split: option.splits item.splits)

lemma ensureSeed_eq:
  "ensureSeed ls =
     (\<lambda>k. if k = LS_KEYS_user \<and> no_usable_json (ls k) then Some (Encoded default_user)
          else if k = LS_KEYS_token \<and> no_item (ls k) then Some (Raw ''local_token'')
          else if k = LS_KEYS_resumes \<and> no_usable_json (ls k) then Some (Encoded (JArr []))
          else ls k)"
  using LS_KEYS_distinct
  by (auto simp: ensureSeed_def Let_def readJson_truthy_iff writeJson_def JSON_stringify_def
        fun_eq_iff)

lemma ensureSeed_seeded:
  "\<not> no_usable_json (ensureSeed ls LS_KEYS_user)"
  "\<not> no_item (ensureSeed ls LS_KEYS_token)"
  "\<not> no_usable_json (ensureSeed ls LS_KEYS_resumes)"
  using LS_KEYS_distinct
  by (auto simp: ensureSeed_eq no_usable_json_def no_item_def default_user_def
      split: option.splits item.splits)

lemma ensureSeed_idem: "ensureSeed (ensureSeed ls) = ensureSeed ls"
proof
  fix k
  show "ensureSeed (ensureSeed ls) k = ensureSeed ls k"
    by (subst ensureSeed_eq) (use ensureSeed_seeded [of ls] in auto)
qed

lemma ensureSeed_funpow: "(ensureSeed ^^ Suc n) ls = ensureSeed ls"
  by (induction n) (simp_all add: ensureSeed_idem)

text \<open>
  C9. \<^verbatim>\<open>readJson\<close> always returns a value, either the fallback or the value the stored
  text parses to; it returns the fallback when the key is absent, when the stored text
  is empty, and when \<^verbatim>\<open>JSON.parse\<close> rejects the stored text.
\<close>

theorem readJson_never_fails:
  "(readJson ls key fallback = fallback \<or> ls key = Some (Encoded (readJson ls key fallback)))
   \<and> (ls key = None \<longrightarrow> readJson ls key fallback = fallback)
   \<and> (ls key = Some (Raw []) \<longrightarrow> readJson ls key fallback = fallback)
   \<and> (\<forall>raw. ls key = Some raw \<and> JSON_parse raw = Inl SyntaxError \<longrightarrow>
          readJson ls key fallback = fallback)"
  by (auto simp: readJson_cases JSON_parse_def split: option.splits item.splits)

theorem readJson_never_fails_witness:
  "corrupted_user_store LS_KEYS_token = None
   \<and> readJson corrupted_user_store LS_KEYS_token (JArr []) = JArr []
   \<and> corrupted_user_store LS_KEYS_user = Some (Raw ''{oops'')
   \<and> JSON_parse (Raw ''{oops'') = Inl SyntaxError
   \<and> readJson corrupted_user_store LS_KEYS_user JNull = JNull
   \<and> readJson [LS_KEYS_user \<mapsto> Raw []] LS_KEYS_user JNull = JNull"
  using readJson_never_fails [of corrupted_user_store LS_KEYS_token "JArr []"]
    readJson_never_fails [of corrupted_user_store LS_KEYS_user JNull]
    readJson_never_fails [of "[LS_KEYS_user \<mapsto> Raw []]" LS_KEYS_user JNull]
  by (simp add: corrupted_user_store_def LS_KEYS_distinct JSON_parse_def)

text \<open>
  C8, as the code has it. \<^verbatim>\<open>ensureSeed\<close> writes the default user when the user key holds
  no usable JSON (the key is missing, or its text is empty, not valid JSON, or a falsy
  JSON value), the default token when the token key is missing or empty, and the empty
  collection when the collection key holds no usable JSON; it leaves every other key as
  it is. Calling it any number of times after the first call changes nothing.
\<close>

theorem ensureSeed_seeds_unusable_and_is_idempotent:
  "ensureSeed ls LS_KEYS_user =
     (if no_usable_json (ls LS_KEYS_user) then Some (Encoded default_user) else ls LS_KEYS_user)
   \<and> ensureSeed ls LS_KEYS_token =
     (if no_item (ls LS_KEYS_token) then Some (Raw ''local_token'') else ls LS_KEYS_token)
   \<and> ensureSeed ls LS_KEYS_resumes =
     (if no_usable_json (ls LS_KEYS_resumes) then Some (Encoded (JArr [])) else ls LS_KEYS_resumes)
   \<and> (k \<notin> {LS_KEYS_user, LS_KEYS_token, LS_KEYS_resumes} \<longrightarrow> ensureSeed ls k = ls k)
   \<and> (ensureSeed ^^ Suc n) ls = ensureSeed ls"
proof -
  have "(ensureSeed ^^ Suc n) ls = ensureSeed ls"
    by (rule ensureSeed_funpow)
  moreover have "ensureSeed ls LS_KEYS_user =
     (if no_usable_json (ls LS_KEYS_user) then Some (Encoded default_user) else ls LS_KEYS_user)"
    using LS_KEYS_distinct by (simp add: ensureSeed_eq)
  moreover have "ensureSeed ls LS_KEYS_token =
     (if no_item (ls LS_KEYS_token) then Some (Raw ''local_token'') else ls LS_KEYS_token)"
    using LS_KEYS_distinct by (simp add: ensureSeed_eq)
  moreover have "ensureSeed ls LS_KEYS_resumes =
     (if no_usable_json (ls LS_KEYS_resumes) then Some (Encoded (JArr [])) else ls LS_KEYS_resumes)"
    using LS_KEYS_distinct by (simp add: ensureSeed_eq)
  moreover have "k \<notin> {LS_KEYS_user, LS_KEYS_token, LS_KEYS_resumes} \<longrightarrow> ensureSeed ls k = ls k"
    using LS_KEYS_distinct by (simp add: ensureSeed_eq)
  ultimately show ?thesis by blast
qed

theorem ensureSeed_seeds_unusable_and_is_idempotent_witness:
  "''theme'' \<notin> {LS_KEYS_user, LS_KEYS_token, LS_KEYS_resumes}
   \<and> ensureSeed Map.empty LS_KEYS_user = Some (Encoded default_user)
   \<and> ensureSeed Map.empty LS_KEYS_token = Some (Raw ''local_token'')
   \<and> ensureSeed Map.empty LS_KEYS_resumes = Some (Encoded (JArr []))
   \<and> ensureSeed Map.empty ''theme'' = None
   \<and> (ensureSeed ^^ Suc 2) Map.empty = ensureSeed Map.empty"
  using ensureSeed_seeds_unusable_and_is_idempotent [of Map.empty "''theme''" 2]
  by (simp add: no_usable_json_def no_item_def LS_KEYS_user_def LS_KEYS_token_def
      LS_KEYS_resumes_def del: funpow.simps)

text \<open>
  C8, as the claim states it, fails: a user key that is present but holds a text that is
  not JSON is overwritten with the default user.
\<close>

theorem ensureSeed_absent_only_counterexample:
  "corrupted_user_store LS_KEYS_user = Some (Raw ''{oops'')
   \<and> ensureSeed corrupted_user_store LS_KEYS_user = Some (Encoded default_user)"
  by (simp add: corrupted_user_store_def ensureSeed_eq no_usable_json_def)

section \<open>Properties of the request router\<close>

lemma match_param_spec: "match_param prefix path \<noteq> None \<Longrightarrow> spec_id_path prefix path"
  by (auto simp: match_param_def spec_id_path_def Let_def split: if_splits)

lemma no_route_exact_paths:
  assumes "\<not> spec_route_table method p"
  shows     "\<not> (method = ''GET'' \<and> p = ''/api/users/data'')"
    "\<not> (method = ''GET'' \<and> p = ''/api/users/resumes'')"
    "\<not> (method = ''POST'' \<and> (p = ''/api/users/login'' \<or> p = ''/api/users/register''))"
    "\<not> (method = ''POST'' \<and> p = ''/api/resumes/create'')"
    "\<not> (method = ''PUT'' \<and> p = ''/api/resumes/update'')"
    "\<not> (method = ''POST'' \<and> p = ''/api/ai/enhance-pro-sum'')"
    "\<not> (method = ''POST'' \<and> p = ''/api/ai/enhance-job-desc'')"
    "\<not> (method = ''POST'' \<and> p = ''/api/ai/upload-resume'')"
    using assms unfolding spec_route_table_def by simp_all

lemma handleRequest_no_route:
  assumes "\<not> spec_route_table method (normalizeUrl url)"
  shows  "handleRequest pf e ls method url b =
          (Inl (Structured (axiosLikeError (''No local route for '' @ method @ '' '' @ normalizeUrl url) (Some 404))),
           ensureSeed ls)"
proof -
  let ?p = "normalizeUrl url"
  note x = no_route_exact_paths [OF assms]
  have g: "\<not> (method = ''GET'' \<and> match_param ''/api/resumes/get/'' ?p \<noteq> None)"
    using assms match_param_spec [of "''/api/resumes/get/''" ?p]
    unfolding spec_route_table_def by (cases "match_param ''/api/resumes/get/'' ?p") simp_all
  have p: "\<not> (method = ''GET'' \<and> match_param ''/api/resumes/public/'' ?p \<noteq> None)"
    using assms match_param_spec [of "''/api/resumes/public/''" ?p]
    unfolding spec_route_table_def by (cases "match_param ''/api/resumes/public/'' ?p") simp_all
  have d: "\<not> (method = ''DELETE'' \<and> match_param ''/api/resumes/delete/'' ?p \<noteq> None)"
    using assms match_param_spec [of "''/api/resumes/delete/''" ?p]
    unfolding spec_route_table_def by (cases "match_param ''/api/resumes/delete/'' ?p") simp_all
  show ?thesis
    unfolding handleRequest_def Let_def
    by (simp only: x g p d if_False)
qed

lemma envelope_Inl: "envelope (Inl x, s) = (Inl x, s)"
  by (simp add: envelope_def)

text \<open>
  C6. A request whose method and normalised path match no row of the route table is
  rejected with the structured failure of status 404 whose message is
  \<^verbatim>\<open>No local route for METHOD PATH\<close>, in the top-level \<^verbatim>\<open>message\<close> and in
  \<^verbatim>\<open>response.data.message\<close>. A structured failure built without a status has status
  400, and one built with a status has that status.
\<close>

theorem unmatched_route_rejects_404:
  assumes "\<not> spec_route_table method (normalizeUrl url)"
  shows "envelope (handleRequest pf e ls method url b) =
           (Inl (Structured
              \<lparr> message = ''No local route for '' @ method @ '' '' @ normalizeUrl url,
                response = \<lparr> status = 404,
                  data = \<lparr> data_message = ''No local route for '' @ method @ '' '' @ normalizeUrl url \<rparr> \<rparr> \<rparr>),
            ensureSeed ls)
         \<and> status (response (axiosLikeError m None)) = 400
         \<and> status (response (axiosLikeError m (Some s))) = s"
  by (simp add: handleRequest_no_route [OF assms] envelope_Inl axiosLikeError_def)

theorem unmatched_route_rejects_404_witness:
  "\<not> spec_route_table ''GET'' (normalizeUrl ''/api/nonexistent'')
   \<and> api_get demo_platform demo_env Map.empty ''/api/nonexistent'' =
       (Inl (Structured
          \<lparr> message = ''No local route for GET /api/nonexistent'',
            response = \<lparr> status = 404,
              data = \<lparr> data_message = ''No local route for GET /api/nonexistent'' \<rparr> \<rparr> \<rparr>),
        ensureSeed Map.empty)"
proof -
  have n: "normalizeUrl ''/api/nonexistent'' = ''/api/nonexistent''"
    by (simp add: normalizeUrl_def startsWith_def)
  have h: "\<not> spec_route_table ''GET'' (normalizeUrl ''/api/nonexistent'')"
    unfolding n by (simp add: spec_route_table_def startsWith_def spec_id_path_def)
  show ?thesis
    using h unmatched_route_rejects_404 [OF h, of demo_platform demo_env Map.empty NoBody]
    by (simp add: api_get_def n)
qed


section \<open>Properties of the text enhancement stub\<close>

lemma greedy_to_quote_eq:
  "greedy_to_quote cs =
     (if dq \<in> set cs then Some (rev (tl (dropWhile (\<lambda>c. c \<noteq> dq) (rev cs)))) else None)"
proof (induction cs)
  case Nil
  then show ?case by simp
next
  case (Cons c cs)
  show ?case
  proof (cases "dq \<in> set cs")
    case True
    then have ne: "dropWhile (\<lambda>c. c \<noteq> dq) (rev cs) \<noteq> []"
      by (simp add: dropWhile_eq_Nil_conv)
    have "dropWhile (\<lambda>c. c \<noteq> dq) (rev cs @ [c]) = dropWhile (\<lambda>c. c \<noteq> dq) (rev cs) @ [c]"
      using True by (intro dropWhile_append1 [of dq]) auto
    then show ?thesis using Cons True ne by (simp add: dq_def)
  next
    case False
    then have "dropWhile (\<lambda>c. c \<noteq> dq) (rev cs @ [c]) = dropWhile (\<lambda>c. c \<noteq> dq) [c]"
      by (intro dropWhile_append2) auto
    then show ?thesis using Cons False by (auto simp: dq_def)
  qed
qed

lemma match_quoted_eq:
  "match_quoted p =
     (case dropWhile (\<lambda>c. c \<noteq> dq) p of [] \<Rightarrow> None | q # rest \<Rightarrow> greedy_to_quote rest)"
proof (induction p)
  case Nil
  then show ?case by simp
next
  case (Cons c cs)
  show ?case
  proof (cases "c = dq")
    case True
    show ?thesis
    proof (cases "greedy_to_quote cs")
      case None
      then have "dq \<notin> set cs" by (simp add: greedy_to_quote_eq split: if_splits)
      then have "dropWhile (\<lambda>c. c \<noteq> dq) cs = []" by auto
      then show ?thesis using Cons True None by (simp add: dq_def del: dropWhile_eq_Nil_conv)
    next
      case (Some g)
      then show ?thesis using True by (simp add: dq_def)
    qed
  next
    case False
    then show ?thesis using Cons by (simp add: dq_def)
  qed
qed

lemma count_list_dropWhile:
  "count_list p x = count_list (dropWhile (\<lambda>c. c \<noteq> x) p) x"
  by (induction p) auto

lemma two_quotes_iff:
  "2 \<le> count_list p dq \<longleftrightarrow>
     (\<exists>rest. dropWhile (\<lambda>c. c \<noteq> dq) p = dq # rest \<and> dq \<in> set rest)"
proof (cases "dropWhile (\<lambda>c. c \<noteq> dq) p")
  case Nil
  have "count_list p dq = 0"
    by (subst count_list_dropWhile) (simp only: Nil count_list.simps)
  then show ?thesis unfolding Nil by simp
next
  case (Cons q rest)
  then have q: "q = dq" using hd_dropWhile [of "\<lambda>c. c \<noteq> dq" p] by simp
  have "count_list p dq = Suc (count_list rest dq)"
    using count_list_dropWhile [of p dq] Cons q by simp
  moreover have "count_list rest dq = 0 \<longleftrightarrow> dq \<notin> set rest"
    by (rule count_list_0_iff)
  ultimately show ?thesis using Cons q by auto
qed

lemma match_quoted_outer:
  "match_quoted p = (if 2 \<le> count_list p dq then Some (between_outer_quotes p) else None)"
proof (cases "dropWhile (\<lambda>c. c \<noteq> dq) p")
  case Nil
  have "\<not> 2 \<le> count_list p dq"
    unfolding two_quotes_iff Nil by simp
  then show ?thesis unfolding match_quoted_eq Nil by simp
next
  case (Cons q rest)
  then have q: "q = dq" using hd_dropWhile [of "\<lambda>c. c \<noteq> dq" p] by simp
  show ?thesis
    using Cons q two_quotes_iff [of p]
    by (simp add: match_quoted_eq greedy_to_quote_eq between_outer_quotes_def)
qed

lemma split_words_Nil: "split_words [] = []"
  by (simp add: split_words.simps)

lemma split_words_dropWhile: "split_words (dropWhile is_space s) = split_words s"
  using split_words.simps [of "dropWhile is_space s"] split_words.simps [of s]
  by (simp add: dropWhile_idem)

lemma split_words_space: "is_space c \<Longrightarrow> split_words (c # cs) = split_words cs"
  using split_words_dropWhile [of "c # cs"] split_words_dropWhile [of cs] by simp

lemma split_words_letter:
  "\<not> is_space c \<Longrightarrow>
     split_words (c # cs) =
       (c # takeWhile (\<lambda>x. \<not> is_space x) cs) # split_words (dropWhile (\<lambda>x. \<not> is_space x) cs)"
  using split_words.simps [of "c # cs"] by simp

lemma split_words_all_space: "\<forall>c\<in>set s. is_space c \<Longrightarrow> split_words s = []"
proof -
  assume "\<forall>c\<in>set s. is_space c"
  then have "dropWhile is_space s = []" by simp
  then show ?thesis using split_words.simps [of s] by (simp del: dropWhile_eq_Nil_conv)
qed

lemma split_words_empty_iff: "split_words s = [] \<longleftrightarrow> (\<forall>c\<in>set s. is_space c)"
proof
  assume e: "split_words s = []"
  show "\<forall>c\<in>set s. is_space c"
  proof (cases "dropWhile is_space s")
    case Nil
    then show ?thesis by simp
  next
    case (Cons d ds)
    then show ?thesis using e split_words.simps [of s] by simp
  qed
qed (rule split_words_all_space)

lemma join_words_Cons_Cons: "join_words ((c # w) # ws) = c # join_words (w # ws)"
  by (cases ws) simp_all

lemma join_words_letter_space:
  "ws \<noteq> [] \<Longrightarrow> join_words ([c] # ws) = c # CHR '' '' # join_words ws"
  by (cases ws) simp_all

lemma collapse_spaces_words:
  "s \<noteq> [] \<Longrightarrow> \<not> is_space (last s) \<Longrightarrow>
     collapse_spaces s = (if is_space (hd s) then '' '' else []) @ join_words (split_words s)"
proof (induction s rule: collapse_spaces.induct)
  case 1
  then show ?case by simp
next
  case (2 c cs)
  show ?case
  proof (cases "is_space c")
    case True
    let ?r = "dropWhile is_space cs"
    from True 2 have cs: "cs \<noteq> []" by auto
    with 2 have lcs: "\<not> is_space (last cs)" by simp
    have "last cs \<in> set cs" using cs by simp
    with lcs have ex: "\<exists>x\<in>set cs. \<not> is_space x" by blast
    then have r: "?r \<noteq> []" by simp
    have "\<exists>ys. cs = takeWhile is_space cs @ ?r" by simp
    then have lr: "last ?r = last cs"
      using r by (metis last_appendR takeWhile_dropWhile_id)
    have hr: "\<not> is_space (hd ?r)" using r hd_dropWhile by blast
    have "collapse_spaces ?r = join_words (split_words ?r)"
      using "2.IH"(1) [OF True r] lr lcs hr by simp
    then show ?thesis
      using True by (simp add: split_words_dropWhile split_words_space)
  next
    case False
    show ?thesis
    proof (cases cs)
      case Nil
      then show ?thesis using False by (simp add: split_words_letter split_words_Nil)
    next
      case (Cons d ds)
      then have cs: "cs \<noteq> []" by simp
      with 2 have lcs: "\<not> is_space (last cs)" by simp
      have ih: "collapse_spaces cs =
                  (if is_space (hd cs) then '' '' else []) @ join_words (split_words cs)"
        using "2.IH"(2) [OF False cs lcs] .
      show ?thesis
      proof (cases "is_space d")
        case True
        have "last cs \<in> set cs" using cs by simp
        with lcs have "\<not> (\<forall>x\<in>set cs. is_space x)" by blast
        then have ne: "split_words cs \<noteq> []" by (simp add: split_words_empty_iff)
        show ?thesis
          using False True Cons ih ne
          by (simp add: split_words_letter join_words_letter_space)
      next
        case nsp: False
        show ?thesis
          using False nsp Cons ih
          by (simp add: split_words_letter join_words_Cons_Cons)
      qed
    qed
  qed
qed

lemma dropWhile_last:
  "dropWhile P xs \<noteq> [] \<Longrightarrow> last (dropWhile P xs) = last xs"
  by (metis last_appendR takeWhile_dropWhile_id)

lemma collapse_spaces_last:
  "s \<noteq> [] \<Longrightarrow> \<not> is_space (last s) \<Longrightarrow>
     collapse_spaces s \<noteq> [] \<and> last (collapse_spaces s) = last s"
proof (induction s rule: collapse_spaces.induct)
  case 1
  then show ?case by simp
next
  case (2 c cs)
  show ?case
  proof (cases "is_space c")
    case True
    let ?r = "dropWhile is_space cs"
    from True 2 have cs: "cs \<noteq> []" by auto
    with 2 have lcs: "\<not> is_space (last cs)" by simp
    have "last cs \<in> set cs" using cs by simp
    with lcs have "\<exists>x\<in>set cs. \<not> is_space x" by blast
    then have r: "?r \<noteq> []" by simp
    have lr: "last ?r = last cs" using r by (rule dropWhile_last)
    have "collapse_spaces ?r \<noteq> [] \<and> last (collapse_spaces ?r) = last ?r"
      using "2.IH"(1) [OF True r] lr lcs by simp
    then show ?thesis using True cs lr by simp
  next
    case False
    show ?thesis
    proof (cases cs)
      case Nil
      then show ?thesis using False by simp
    next
      case (Cons d ds)
      then have cs: "cs \<noteq> []" by simp
      with 2 have lcs: "\<not> is_space (last cs)" by simp
      have "collapse_spaces cs \<noteq> [] \<and> last (collapse_spaces cs) = last cs"
        using "2.IH"(2) [OF False cs lcs] .
      then show ?thesis using False cs by simp
    qed
  qed
qed

lemma collapse_spaces_hd:
  "s \<noteq> [] \<Longrightarrow> \<not> is_space (hd s) \<Longrightarrow> hd (collapse_spaces s) = hd s"
  by (cases s) simp_all

lemma trim_empty_iff: "trim s = [] \<longleftrightarrow> (\<forall>c\<in>set s. is_space c)"
proof -
  let ?a = "dropWhile is_space s"
  have "trim s = [] \<longleftrightarrow> (\<forall>x\<in>set ?a. is_space x)"
    unfolding trim_def by simp
  also have "\<dots> \<longleftrightarrow> ?a = []"
  proof
    assume all: "\<forall>x\<in>set ?a. is_space x"
    show "?a = []"
    proof (rule ccontr)
      assume ne: "?a \<noteq> []"
      then have "hd ?a \<in> set ?a" by (rule hd_in_set)
      then show False using all hd_dropWhile [OF ne] by blast
    qed
  next
    assume "?a = []"
    then show "\<forall>x\<in>set ?a. is_space x" by (simp del: dropWhile_eq_Nil_conv)
  qed
  also have "\<dots> \<longleftrightarrow> (\<forall>c\<in>set s. is_space c)"
    by (rule dropWhile_eq_Nil_conv)
  finally show ?thesis .
qed

lemma trim_fixed:
  assumes "u \<noteq> []" "\<not> is_space (hd u)" "\<not> is_space (last u)"
  shows "trim u = u"
proof -
  have a: "dropWhile is_space u = u" using assms by (cases u) simp_all
  obtain b l where u: "u = b @ [l]" using assms(1) by (metis rev_exhaust)
  then have "\<not> is_space l" using assms(3) by simp
  then have "dropWhile is_space (rev u) = rev u" unfolding u by simp
  then show ?thesis unfolding trim_def a by simp
qed

lemma trim_ends:
  assumes "trim s \<noteq> []"
  shows "\<not> is_space (hd (trim s))" "\<not> is_space (last (trim s))"
proof -
  let ?a = "dropWhile is_space s"
  let ?b = "dropWhile is_space (rev ?a)"
  have b: "?b \<noteq> []" using assms unfolding trim_def by simp
  have a: "?a \<noteq> []"
  proof
    assume "?a = []"
    then have "?b = []" by (simp del: dropWhile_eq_Nil_conv)
    then show False using b by blast
  qed
  have "last (trim s) = hd ?b" unfolding trim_def using b by (simp add: last_rev)
  then show "\<not> is_space (last (trim s))" using hd_dropWhile [OF b] by simp
  have "hd (trim s) = last ?b" unfolding trim_def using b by (simp add: hd_rev)
  also have "\<dots> = last (rev ?a)" using b by (rule dropWhile_last)
  also have "\<dots> = hd ?a" using a by (simp add: last_rev)
  finally show "\<not> is_space (hd (trim s))" using hd_dropWhile [OF a] by simp
qed

lemma split_words_snoc_space: "is_space c \<Longrightarrow> split_words (u @ [c]) = split_words u"
proof (induction u rule: split_words.induct)
  case (1 s)
  show ?case
  proof (cases "dropWhile is_space s")
    case Nil
    then have "\<forall>x\<in>set (s @ [c]). is_space x" using 1(2) by simp
    then have "split_words (s @ [c]) = []" by (rule split_words_all_space)
    moreover have "split_words s = []" using Nil by (intro split_words_all_space) simp
    ultimately show ?thesis by simp
  next
    case (Cons d ds)
    then have ex: "\<exists>x\<in>set s. \<not> is_space x"
      by (metis dropWhile_eq_Nil_conv list.distinct(1))
    have app: "dropWhile is_space (s @ [c]) = (d # ds) @ [c]"
      using ex Cons dropWhile_append1 [of _ s is_space "[c]"] by (metis)
    have d: "\<not> is_space d" using Cons hd_dropWhile [of is_space s] by simp
    have l: "split_words s = (d # takeWhile (\<lambda>x. \<not> is_space x) ds)
                # split_words (dropWhile (\<lambda>x. \<not> is_space x) ds)"
      using split_words.simps [of s] Cons by simp
    have r: "split_words (s @ [c]) = (d # takeWhile (\<lambda>x. \<not> is_space x) (ds @ [c]))
                # split_words (dropWhile (\<lambda>x. \<not> is_space x) (ds @ [c]))"
      using split_words.simps [of "s @ [c]"] app by simp
    show ?thesis
    proof (cases "\<exists>x\<in>set ds. is_space x")
      case True
      then obtain y where y: "y \<in> set ds" "is_space y" by blast
      have t: "takeWhile (\<lambda>x. \<not> is_space x) (ds @ [c]) = takeWhile (\<lambda>x. \<not> is_space x) ds"
        using y by (intro takeWhile_append1 [of y ds]) simp_all
      have dr: "dropWhile (\<lambda>x. \<not> is_space x) (ds @ [c]) = dropWhile (\<lambda>x. \<not> is_space x) ds @ [c]"
        using y by (intro dropWhile_append1 [of y ds]) simp_all
      show ?thesis
        unfolding l r t dr using "1.IH" [OF Cons "1.prems"] by simp
    next
      case False
      then have t: "takeWhile (\<lambda>x. \<not> is_space x) (ds @ [c]) = ds"
        using 1(2) by (simp add: takeWhile_append2)
      from False have dr: "dropWhile (\<lambda>x. \<not> is_space x) (ds @ [c]) = [c]"
        using 1(2) by (simp add: dropWhile_append2)
      from False have t': "takeWhile (\<lambda>x. \<not> is_space x) ds = ds" by simp
      from False have dr': "dropWhile (\<lambda>x. \<not> is_space x) ds = []" by simp
      show ?thesis
        unfolding l r t dr t' dr' using 1(2) by (simp add: split_words_space split_words_Nil)
    qed
  qed
qed

lemma split_words_rev_dropWhile:
  "split_words (rev (dropWhile is_space r)) = split_words (rev r)"
  by (induction r) (simp_all add: split_words_snoc_space)

lemma split_words_trim: "split_words (trim s) = split_words s"
  unfolding trim_def by (simp add: split_words_rev_dropWhile split_words_dropWhile)

lemma cleaned_words:
  assumes "trim s \<noteq> []"
  shows "trim (collapse_spaces (trim s)) = join_words (split_words s)"
proof -
  let ?t = "trim s"
  note e = trim_ends [OF assms]
  have c: "collapse_spaces ?t = join_words (split_words s)"
    using collapse_spaces_words [OF assms e(2)] e(1) by (simp add: split_words_trim)
  have "trim (collapse_spaces ?t) = collapse_spaces ?t"
    using collapse_spaces_last [OF assms e(2)] collapse_spaces_hd [OF assms e(1)] e
    by (intro trim_fixed) simp_all
  then show ?thesis using c by simp
qed

lemma enhanceText_selected:
  "enhanceText (Some (JStr p)) =
     (let base = trim (selected_text p) in
      if base = [] then Inr []
      else (let cleaned = trim (collapse_spaces base) in
            if length cleaned < 80 then Inr (boilerplate @ cleaned) else Inr cleaned))"
  by (simp add: enhanceText_def match_quoted_outer selected_text_def)

lemma enhanceText_string: "enhanceText (Some (JStr p)) = Inr (enhance_outer p)"
proof (cases "trim (selected_text p) = []")
  case True
  then have "split_words (selected_text p) = []"
    unfolding trim_empty_iff by (rule split_words_all_space)
  then show ?thesis
    using True by (simp add: enhanceText_selected enhance_outer_def)
next
  case False
  have c: "trim (collapse_spaces (trim (selected_text p))) = join_words (split_words (selected_text p))"
    by (rule cleaned_words [OF False])
  have "\<not> (\<forall>c\<in>set (selected_text p). is_space c)"
    using False by (simp add: trim_empty_iff)
  then have "split_words (selected_text p) \<noteq> []"
    by (simp add: split_words_empty_iff)
  then have "join_words (split_words (selected_text p)) \<noteq> []"
    using c collapse_spaces_last [OF False trim_ends(2) [OF False]]
      trim_fixed [of "collapse_spaces (trim (selected_text p))"]
      collapse_spaces_hd [OF False trim_ends(1) [OF False]] trim_ends [OF False]
    by metis
  then show ?thesis
    using False c by (simp add: enhanceText_selected enhance_outer_def Let_def)
qed


text \<open>
  C5, as the code has it. For every prompt string the stub takes the text between the
  first and the last double quote when the prompt has at least two double quotes, else
  the whole prompt; joins its words by single spaces; puts the boilerplate sentence in
  front when the result is not empty and shorter than 80 characters, and returns it
  unchanged otherwise. The two examples of the specification hold.
\<close>

theorem enhanceText_takes_outer_quotes:
  \<open>enhanceText (Some (JStr p)) = Inr (enhance_outer p)
   \<and> enhanceText (Some (JStr ''write about "built 3 apps"'')) =
       Inr ''Results-driven professional with a strong focus on impact. built 3 apps''
   \<and> enhanceText (Some (JStr [])) = Inr []\<close>
proof -
  have \<open>enhanceText (Some (JStr ''write about "built 3 apps"'')) =
       Inr ''Results-driven professional with a strong focus on impact. built 3 apps''\<close>
    by code_simp
  moreover have "enhanceText (Some (JStr [])) = Inr []"
    by code_simp
  ultimately show ?thesis
    using enhanceText_string [of p] by blast
qed

theorem enhanceText_takes_outer_quotes_witness:
  \<open>enhanceText (Some (JStr ''  tidy   up "led  a team" ''))
     = Inr ''Results-driven professional with a strong focus on impact. led a team''\<close>
proof -
  have \<open>enhance_outer ''  tidy   up "led  a team" ''
          = ''Results-driven professional with a strong focus on impact. led a team''\<close>
    by code_simp
  then show ?thesis
    using enhanceText_takes_outer_quotes [of \<open>''  tidy   up "led  a team" ''\<close>] by simp
qed

text \<open>
  C5, as the claim states it, fails: on a prompt with two quotations the stub returns
  everything from the first double quote to the last one, not the first quotation.
\<close>

theorem enhanceText_first_quotation_counterexample:
  \<open>enhanceText (Some (JStr two_quotations)) \<noteq> Inr (spec_enhance two_quotations)
   \<and> enhanceText (Some (JStr two_quotations)) = Inr (boilerplate @ ''a" and "b'')
   \<and> spec_enhance two_quotations = boilerplate @ ''a''\<close>
  by code_simp

section \<open>Properties of the resume repository and the list route\<close>

lemma compare_updatedAt_dated:
  "dated pf a \<Longrightarrow> dated pf b \<Longrightarrow>
     compare_updatedAt pf a b = Inr (Some (time_of pf b - time_of pf a))"
  by (auto simp: compare_updatedAt_def dated_def time_of_def updatedAt_of_def getProp_def
      split: json.splits sum.splits option.splits)

lemma SortCompare_dated:
  "dated pf a \<Longrightarrow> dated pf b \<Longrightarrow>
     SortCompare (compare_updatedAt pf) a b = Inr (time_of pf b - time_of pf a)"
  by (simp add: SortCompare_def compare_updatedAt_dated)

lemma sort_insert_dated:
  "dated pf x \<Longrightarrow> \<forall>y\<in>set ys. dated pf y \<Longrightarrow>
     sort_insert (SortCompare (compare_updatedAt pf)) x ys
       = Inr (insort_key (\<lambda>r. - time_of pf r) x ys)"
  by (induction ys) (auto simp: SortCompare_dated)

lemma stable_sort_dated:
  "\<forall>r\<in>set rs. dated pf r \<Longrightarrow>
     stable_sort (SortCompare (compare_updatedAt pf)) rs = Inr (sort_key (\<lambda>r. - time_of pf r) rs)"
  by (induction rs) (auto simp: sort_insert_dated)

lemma consistent_dated:
  assumes "\<forall>r\<in>set rs. dated pf r"
  shows "consistent_comparator (SortCompare (compare_updatedAt pf)) rs"
  unfolding consistent_comparator_def list_all_iff
proof (intro ballI conjI)
  fix a assume "a \<in> set rs"
  then show "SortCompare (compare_updatedAt pf) a a = Inr 0"
    using assms by (simp add: SortCompare_dated)
next
  fix a b assume "a \<in> set rs" "b \<in> set rs"
  then show "(case (SortCompare (compare_updatedAt pf) a b, SortCompare (compare_updatedAt pf) b a) of
               (Inr u, Inr v) \<Rightarrow> (u = 0) = (v = 0)
             | other \<Rightarrow> False)"
    using assms by (auto simp: SortCompare_dated)
next
  fix a b c assume "a \<in> set rs" "b \<in> set rs" "c \<in> set rs"
  then show "(case (SortCompare (compare_updatedAt pf) a b, SortCompare (compare_updatedAt pf) b c,
                    SortCompare (compare_updatedAt pf) a c) of
               (Inr u, Inr v, Inr w) \<Rightarrow>
                 (if u = 0 \<and> v = 0 then w = 0 else True) \<and>
                 (if u < 0 \<and> v < 0 then w < 0 else True) \<and>
                 (if 0 < u \<and> 0 < v then 0 < w else True)
             | other \<Rightarrow> False)"
    using assms by (auto simp: SortCompare_dated)
qed

lemma array_sort_dated:
  "\<forall>r\<in>set rs. dated pf r \<Longrightarrow>
     array_sort pf (compare_updatedAt pf) rs = Inr (sort_key (\<lambda>r. - time_of pf r) rs)"
  by (simp add: array_sort_def consistent_dated stable_sort_dated)

lemma getResumes_eq: "getResumes ls = (collection ls, ensureSeed ls)"
  by (simp add: collection_def getResumes_def Let_def)

lemma collection_ensureSeed: "collection (ensureSeed ls) = collection ls"
  by (simp add: collection_def getResumes_def Let_def ensureSeed_idem)

lemma normalizeUrl_slash: "normalizeUrl (CHR ''/'' # u) = CHR ''/'' # u"
  by (simp add: normalizeUrl_def startsWith_def)

lemma handleRequest_users_resumes:
  "handleRequest pf e ls ''GET'' ''/api/users/resumes'' b = users_resumes pf (ensureSeed ls)"
  by (simp add: handleRequest_def normalizeUrl_slash)

lemma users_resumes_dated:
  assumes "collection ls = JArr rs" "\<forall>r\<in>set rs. dated pf r"
  shows "users_resumes pf (ensureSeed ls) =
           (Inr (JObj [(''resumes'', JArr (sort_key (\<lambda>r. - time_of pf r) rs))]), ensureSeed ls)"
  using assms
  by (simp add: users_resumes_def getResumes_eq collection_ensureSeed ensureSeed_idem array_sort_dated)

lemma collection_eq: "collection ls = readJson (ensureSeed ls) LS_KEYS_resumes (JArr [])"
  by (simp add: collection_def getResumes_def Let_def)

lemma collection_setResumes: "truthy v \<Longrightarrow> collection (setResumes ls v) = v"
  by (simp add: collection_eq readJson_cases ensureSeed_eq setResumes_def writeJson_def
      JSON_stringify_def LS_KEYS_distinct no_usable_json_def no_item_def)

lemma array_find_truthy:
  "array_find rid rs = Inr (Some r) \<Longrightarrow> rid \<noteq> None \<Longrightarrow> truthy r"
proof (induction rs)
  case Nil
  then show ?case by simp
next
  case (Cons x xs)
  show ?case
  proof (cases "getProp x ''_id''")
    case (Inl err)
    then show ?thesis using Cons.prems by simp
  next
    case (Inr i)
    show ?thesis
    proof (cases "strict_eq i rid")
      case True
      then have "i \<noteq> None" using Cons.prems(2) by (cases rid; cases i) simp_all
      then have "\<exists>kvs. x = JObj kvs"
        using Inr by (cases x) (simp_all add: getProp_def)
      then show ?thesis using Cons.prems(1) Inr True by auto
    next
      case False
      then show ?thesis using Cons Inr by simp
    qed
  qed
qed

lemma findResume_eq:
  assumes "collection ls = JArr rs" and "rid \<noteq> None"
  shows "findResume ls rid = (array_find rid rs, ensureSeed ls)"
proof (cases "array_find rid rs")
  case (Inl err)
  then show ?thesis using assms(1) by (simp add: findResume_def getResumes_eq)
next
  case (Inr found)
  have "truthy_opt found \<or> found = None"
    using array_find_truthy [OF _ assms(2)] Inr by (cases found) simp_all
  then show ?thesis
    using assms(1) Inr by (auto simp: findResume_def getResumes_eq)
qed

lemma truthy_opt_defined: "truthy_opt rid \<Longrightarrow> rid \<noteq> None"
  by (cases rid) simp_all

lemma upsertResume_eq:
  "collection ls = JArr rs \<Longrightarrow>
     upsertResume ls u =
       (case array_findIndex u 0 rs of
          Inl err \<Rightarrow> (Inl err, ensureSeed ls)
        | Inr (Some idx) \<Rightarrow> (Inr (), setResumes (ensureSeed ls) (JArr (rs[idx := u])))
        | Inr None \<Rightarrow> (Inr (), setResumes (ensureSeed ls) (JArr (rs @ [u]))))"
  by (simp add: upsertResume_def getResumes_eq)

lemma handleRequest_create:
  "handleRequest pf e ls ''POST'' ''/api/resumes/create'' b = resumes_create pf e (ensureSeed ls) b"
  by (simp add: handleRequest_def normalizeUrl_slash)

lemma handleRequest_update:
  "handleRequest pf e ls ''PUT'' ''/api/resumes/update'' b = resumes_update e (ensureSeed ls) b"
  by (simp add: handleRequest_def normalizeUrl_slash match_param_def startsWith_def)

lemma resumes_create_eq:
  "collection ls = JArr rs \<Longrightarrow> create_title pf b = Inr t \<Longrightarrow>
     resumes_create pf e (ensureSeed ls) b =
       (case array_findIndex (created e t) 0 rs of
          Inl err \<Rightarrow> (Inl err, ensureSeed ls)
        | Inr (Some idx) \<Rightarrow>
            (Inr (JObj [(''resume'', created e t), (''message'', JStr ''Resume created'')]),
             setResumes (ensureSeed ls) (JArr (rs[idx := created e t])))
        | Inr None \<Rightarrow>
            (Inr (JObj [(''resume'', created e t), (''message'', JStr ''Resume created'')]),
             setResumes (ensureSeed ls) (JArr (rs @ [created e t]))))"
  by (simp add: resumes_create_def create_title_def created_def Let_def upsertResume_eq
      collection_ensureSeed ensureSeed_idem split: sum.splits option.splits)

lemma created_id: "getProp (created e t) ''_id'' = Inr (Some (JStr (makeId (Some ''resume'') e)))"
  by (simp add: created_def new_resume_def getProp_def)

lemma create_appends:
  assumes "collection ls = JArr rs" "create_title pf b = Inr t"
    and "array_findIndex (created e t) 0 rs = Inr None"
  shows "handleRequest pf e ls ''POST'' ''/api/resumes/create'' b =
           (Inr (JObj [(''resume'', created e t), (''message'', JStr ''Resume created'')]),
            setResumes (ensureSeed ls) (JArr (rs @ [created e t])))"
  using assms by (simp add: handleRequest_create resumes_create_eq)

lemma create_title_own_toString:
  "create_title pf (JsonBody (JObj [(''title'', JObj [(''toString'', v)])])) = Inl TypeError"
  by (simp add: create_title_def bodyProp_def getProp_def or_else_def)

lemma create_rejects_title:
  "create_title pf b = Inl err \<Longrightarrow>
     handleRequest pf e ls ''POST'' ''/api/resumes/create'' b = (Inl err, ensureSeed ls)"
  by (simp add: handleRequest_create resumes_create_def create_title_def)

lemma getProp_new_resume [simp]:
  "getProp (new_resume rid t s c u) ''_id'' = Inr (Some (JStr rid))"
  "getProp (new_resume rid t s c u) ''updatedAt'' = Inr (Some (JStr u))"
  "getProp (new_resume rid t s c u) ''personal_info'' = Inr (Some (JObj []))"
  by (simp_all add: new_resume_def getProp_def)

lemma array_index_name: "\<not> is_digit c \<Longrightarrow> array_index (c # cs) = None"
  by (simp add: array_index_def)

lemma set_prop_name: "\<not> is_digit c \<Longrightarrow> set_prop (c # cs) v kvs = AList.update (c # cs) v kvs"
  by (simp add: set_prop_def array_index_name)

lemma build_next_new_resume:
  "build_next (new_resume rid t s c u) (JObj []) now = Inr (new_resume rid t s c now)"
  by (simp add: build_next_def Let_def spread_into_def own_props_def set_prop_name is_digit_def or_else_def new_resume_def
      getProp_def)

lemma update_empty_existing:
  assumes "collection ls = JArr rs" "rid \<noteq> []"
    and "array_find (Some (JStr rid)) rs = Inr (Some (new_resume rid t s c u))"
    and "array_findIndex (new_resume rid t s c (nowIso1 e)) 0 rs = Inr (Some idx)"
  shows "handleRequest pf e ls ''PUT'' ''/api/resumes/update'' (update_empty rid) =
           (Inr (JObj [(''resume'', new_resume rid t s c (nowIso1 e)),
                       (''message'', JStr ''Resume updated'')]),
            setResumes (ensureSeed ls) (JArr (rs[idx := new_resume rid t s c (nowIso1 e)])))"
  using assms
  by (simp add: handleRequest_update resumes_update_def update_args_def update_empty_def
      bodyProp_def getProp_def or_else_def findResume_eq collection_ensureSeed ensureSeed_idem
      build_next_new_resume embed_image_def upsertResume_eq Let_def)

lemma time_of_new_resume:
  "time_of pf (new_resume rid t s c u) = (case getTime pf (Some (JStr u)) of Some x \<Rightarrow> x | None \<Rightarrow> 0)"
  by (simp add: time_of_def updatedAt_of_def)

lemma dated_new_resume:
  "dated pf (new_resume rid t s c u) = (getTime pf (Some (JStr u)) \<noteq> None)"
  by (simp add: dated_def updatedAt_of_def) (simp add: new_resume_def)

lemma list_ordering_scenario_result:
  assumes empty: "collection s0 = JArr []"
    and titles: "create_title pf b1 = Inr n1" "create_title pf b2 = Inr n2" "create_title pf b3 = Inr n3"
    and ids: "distinct [makeId (Some ''resume'') e1, makeId (Some ''resume'') e2, makeId (Some ''resume'') e3]"
    and t1: "getTime pf (Some (JStr (nowIso2 e1))) = Some t1"
    and t3: "getTime pf (Some (JStr (nowIso2 e3))) = Some t3"
    and t4: "getTime pf (Some (JStr (nowIso1 e4))) = Some t4"
    and order: "t1 < t3" "t3 < t4"
  shows "list_ordering_scenario pf e1 e2 e3 e4 e5 b1 b2 b3 s0 =
           Inr (JObj [(''resumes'',
                  JArr [new_resume (makeId (Some ''resume'') e2) n2 [] (nowIso1 e2) (nowIso1 e4),
                        created e3 n3, created e1 n1])])"
proof -
  let ?R1 = "created e1 n1" and ?R2 = "created e2 n2" and ?R3 = "created e3 n3"
  let ?U = "new_resume (makeId (Some ''resume'') e2) n2 [] (nowIso1 e2) (nowIso1 e4)"
  let ?s1 = "setResumes (ensureSeed s0) (JArr [?R1])"
  let ?s2 = "setResumes (ensureSeed ?s1) (JArr [?R1, ?R2])"
  let ?s3 = "setResumes (ensureSeed ?s2) (JArr [?R1, ?R2, ?R3])"
  let ?s4 = "setResumes (ensureSeed ?s3) (JArr [?R1, ?U, ?R3])"
  have h1: "snd (handleRequest pf e1 s0 ''POST'' ''/api/resumes/create'' b1) = ?s1"
    using create_appends [OF empty titles(1), of e1] by simp
  have c1: "collection ?s1 = JArr [?R1]" by (simp add: collection_setResumes)
  have h2: "snd (handleRequest pf e2 ?s1 ''POST'' ''/api/resumes/create'' b2) = ?s2"
    using create_appends [OF c1 titles(2), of e2] ids by (simp add: created_id)
  have c2: "collection ?s2 = JArr [?R1, ?R2]" by (simp add: collection_setResumes)
  have h3: "snd (handleRequest pf e3 ?s2 ''POST'' ''/api/resumes/create'' b3) = ?s3"
    using create_appends [OF c2 titles(3), of e3] ids by (simp add: created_id)
  have c3: "collection ?s3 = JArr [?R1, ?R2, ?R3]" by (simp add: collection_setResumes)
  have ne: "makeId (Some ''resume'') e2 \<noteq> []" by (simp add: makeId_def)
  have h4: "snd (handleRequest pf e4 ?s3 ''PUT'' ''/api/resumes/update''
                   (update_empty (makeId (Some ''resume'') e2))) = ?s4"
    using update_empty_existing [OF c3 ne, of _ _ "nowIso1 e2" "nowIso2 e2" e4 1 pf] ids
    by (simp add: created_id) (simp add: created_def)
  have c4: "collection ?s4 = JArr [?R1, ?U, ?R3]" by (simp add: collection_setResumes)
  have d: "\<forall>r\<in>set [?R1, ?U, ?R3]. dated pf r"
    using t1 t3 t4 by (simp add: created_def dated_new_resume)
  have "fst (handleRequest pf e5 ?s4 ''GET'' ''/api/users/resumes'' NoBody) =
          Inr (JObj [(''resumes'', JArr (sort_key (\<lambda>r. - time_of pf r) [?R1, ?U, ?R3]))])"
    by (simp add: handleRequest_users_resumes users_resumes_dated [OF c4 d])
  moreover have "sort_key (\<lambda>r. - time_of pf r) [?R1, ?U, ?R3] = [?U, ?R3, ?R1]"
    using t1 t3 t4 order by (simp add: created_def time_of_new_resume)
  ultimately show ?thesis
    unfolding list_ordering_scenario_def Let_def h1 h2 h3 h4 by simp
qed

text \<open>
  C4, as the code has it. When the stored collection is an array whose entries are not
  \<^verbatim>\<open>null\<close> and have valid dates as \<^verbatim>\<open>updatedAt\<close>, \<^verbatim>\<open>GET /api/users/resumes\<close> returns all
  of them (the same elements with the same multiplicities), ordered by \<^verbatim>\<open>updatedAt\<close>
  descending, and the resumes of any one time value keep their stored order. In
  particular: starting from an empty collection, when three resumes with distinct ids are
  created from bodies whose titles have a string, with \<^verbatim>\<open>updatedAt\<close> times \<open>t1 < t3\<close> for
  the first and the third, and the second is then updated at \<open>t4 > t3\<close>, the list is the
  updated second resume, the third, the first.
\<close>

theorem list_sorted_newest_first:
  "(collection ls = JArr rs \<and> (\<forall>r\<in>set rs. dated pf r) \<longrightarrow>
      handleRequest pf e ls ''GET'' ''/api/users/resumes'' b =
        (Inr (JObj [(''resumes'', JArr (newest_first pf rs))]), ensureSeed ls)
      \<and> mset (newest_first pf rs) = mset rs
      \<and> sorted_wrt (\<lambda>x y. time_of pf x \<ge> time_of pf y) (newest_first pf rs)
      \<and> (\<forall>t. filter (\<lambda>r. time_of pf r = t) (newest_first pf rs)
               = filter (\<lambda>r. time_of pf r = t) rs))
   \<and> (collection s0 = JArr []
      \<and> create_title pf b1 = Inr n1 \<and> create_title pf b2 = Inr n2 \<and> create_title pf b3 = Inr n3
      \<and> distinct [makeId (Some ''resume'') e1, makeId (Some ''resume'') e2, makeId (Some ''resume'') e3]
      \<and> getTime pf (Some (JStr (nowIso2 e1))) = Some t1
      \<and> getTime pf (Some (JStr (nowIso2 e3))) = Some t3
      \<and> getTime pf (Some (JStr (nowIso1 e4))) = Some t4
      \<and> t1 < t3 \<and> t3 < t4 \<longrightarrow>
      list_ordering_scenario pf e1 e2 e3 e4 e5 b1 b2 b3 s0 =
        Inr (JObj [(''resumes'',
               JArr [new_resume (makeId (Some ''resume'') e2) n2 [] (nowIso1 e2) (nowIso1 e4),
                     created e3 n3, created e1 n1])]))"
proof (intro conjI impI allI; (elim conjE)?)
  assume c: "collection ls = JArr rs" and d: "\<forall>r\<in>set rs. dated pf r"
  show "handleRequest pf e ls ''GET'' ''/api/users/resumes'' b =
          (Inr (JObj [(''resumes'', JArr (newest_first pf rs))]), ensureSeed ls)"
    using c d by (simp add: handleRequest_users_resumes users_resumes_dated newest_first_def)
next
  show "mset (newest_first pf rs) = mset rs" by (simp add: newest_first_def)
next
  have "sorted (map (\<lambda>r. - time_of pf r) (newest_first pf rs))"
    unfolding newest_first_def by (rule sorted_sort_key)
  then show "sorted_wrt (\<lambda>x y. time_of pf x \<ge> time_of pf y) (newest_first pf rs)"
    by (simp add: sorted_map)
next
  fix t
  show "filter (\<lambda>r. time_of pf r = t) (newest_first pf rs) = filter (\<lambda>r. time_of pf r = t) rs"
    using sort_key_stable [of "\<lambda>r. - time_of pf r" "- t" rs] by (simp add: newest_first_def)
next
  assume "collection s0 = JArr []"
    "create_title pf b1 = Inr n1" "create_title pf b2 = Inr n2" "create_title pf b3 = Inr n3"
    "distinct [makeId (Some ''resume'') e1, makeId (Some ''resume'') e2, makeId (Some ''resume'') e3]"
    "getTime pf (Some (JStr (nowIso2 e1))) = Some t1"
    "getTime pf (Some (JStr (nowIso2 e3))) = Some t3"
    "getTime pf (Some (JStr (nowIso1 e4))) = Some t4"
    "t1 < t3" "t3 < t4"
  then show "list_ordering_scenario pf e1 e2 e3 e4 e5 b1 b2 b3 s0 =
        Inr (JObj [(''resumes'',
               JArr [new_resume (makeId (Some ''resume'') e2) n2 [] (nowIso1 e2) (nowIso1 e4),
                     created e3 n3, created e1 n1])])"
    by (rule list_ordering_scenario_result)
qed

lemma demo_ids:
  "makeId (Some ''resume'') demo_env = ''resume_lqu5m2o0_4fzyo82m''"
  "makeId (Some ''resume'') demo_env2 = ''resume_lqvl1xc0_9k2x7c1q''"
  "makeId (Some ''resume'') demo_env3 = ''resume_lqx0hs00_b81jz03h''"
  by (simp_all add: makeId_def demo_env_def demo_env2_def demo_env3_def slice_def
      toString36.simps digit36_def)

lemma demo_times:
  "getTime demo_platform (Some (JStr ''2024-01-01T00:00:00.000Z'')) = Some 1704067200000"
  "getTime demo_platform (Some (JStr ''2024-01-02T00:00:00.000Z'')) = Some 1704153600000"
  "getTime demo_platform (Some (JStr ''2024-01-03T00:00:00.000Z'')) = Some 1704240000000"
  "getTime demo_platform (Some (JStr ''2024-01-04T00:00:00.000Z'')) = Some 1704326400000"
  by (simp_all add: demo_platform_def demo_getTime_def)

theorem list_sorted_newest_first_witness:
  "collection tied_store =
     JArr [stamped ''a'' ''2024-01-01T00:00:00.000Z'', stamped ''b'' ''2024-01-02T00:00:00.000Z'',
           stamped ''c'' ''2024-01-02T00:00:00.000Z'']
   \<and> list_all (dated demo_platform)
         [stamped ''a'' ''2024-01-01T00:00:00.000Z'', stamped ''b'' ''2024-01-02T00:00:00.000Z'',
          stamped ''c'' ''2024-01-02T00:00:00.000Z'']
   \<and> handleRequest demo_platform demo_env tied_store ''GET'' ''/api/users/resumes'' NoBody =
       (Inr (JObj [(''resumes'',
          JArr [stamped ''b'' ''2024-01-02T00:00:00.000Z'', stamped ''c'' ''2024-01-02T00:00:00.000Z'',
                stamped ''a'' ''2024-01-01T00:00:00.000Z''])]),
        ensureSeed tied_store)
   \<and> collection Map.empty = JArr []
   \<and> create_title demo_platform NoBody = Inr ''Untitled Resume''
   \<and> distinct [makeId (Some ''resume'') demo_env, makeId (Some ''resume'') demo_env2,
                 makeId (Some ''resume'') demo_env3]
   \<and> list_ordering_scenario demo_platform demo_env demo_env2 demo_env3 demo_env4 demo_env
         NoBody NoBody NoBody Map.empty =
       Inr (JObj [(''resumes'',
          JArr [new_resume ''resume_lqvl1xc0_9k2x7c1q'' ''Untitled Resume'' []
                  ''2024-01-02T00:00:00.000Z'' ''2024-01-04T00:00:00.000Z'',
                new_resume ''resume_lqx0hs00_b81jz03h'' ''Untitled Resume'' []
                  ''2024-01-03T00:00:00.000Z'' ''2024-01-03T00:00:00.000Z'',
                new_resume ''resume_lqu5m2o0_4fzyo82m'' ''Untitled Resume'' []
                  ''2024-01-01T00:00:00.000Z'' ''2024-01-01T00:00:00.000Z''])])"
proof -
  let ?a = "stamped ''a'' ''2024-01-01T00:00:00.000Z''"
  let ?b = "stamped ''b'' ''2024-01-02T00:00:00.000Z''"
  let ?c = "stamped ''c'' ''2024-01-02T00:00:00.000Z''"
  have c: "collection tied_store = JArr [?a, ?b, ?c]"
    by (simp add: collection_eq readJson_cases ensureSeed_eq tied_store_def LS_KEYS_distinct
        no_usable_json_def)
  have t: "time_of demo_platform ?a = 1704067200000" "time_of demo_platform ?b = 1704153600000"
    "time_of demo_platform ?c = 1704153600000"
    by (simp_all add: time_of_def updatedAt_of_def stamped_def getProp_def demo_times)
  have d: "\<forall>r\<in>set [?a, ?b, ?c]. dated demo_platform r"
    by (simp add: dated_def updatedAt_of_def stamped_def getProp_def demo_times)
  have n: "newest_first demo_platform [?a, ?b, ?c] = [?b, ?c, ?a]"
    by (simp add: newest_first_def t)
  have e: "collection Map.empty = JArr []"
    by (simp add: collection_eq readJson_cases ensureSeed_eq LS_KEYS_distinct no_usable_json_def)
  have i: "distinct [makeId (Some ''resume'') demo_env, makeId (Some ''resume'') demo_env2,
                 makeId (Some ''resume'') demo_env3]"
    by (simp add: demo_ids)
  have s: "nowIso2 demo_env = ''2024-01-01T00:00:00.000Z''" "nowIso2 demo_env3 = ''2024-01-03T00:00:00.000Z''"
    "nowIso1 demo_env4 = ''2024-01-04T00:00:00.000Z''" "nowIso1 demo_env2 = ''2024-01-02T00:00:00.000Z''"
    "nowIso1 demo_env = ''2024-01-01T00:00:00.000Z''" "nowIso1 demo_env3 = ''2024-01-03T00:00:00.000Z''"
    by (simp_all add: demo_env_def demo_env2_def demo_env3_def demo_env4_def)
  have cr: "created demo_env ''Untitled Resume'' =
              new_resume ''resume_lqu5m2o0_4fzyo82m'' ''Untitled Resume'' []
                  ''2024-01-01T00:00:00.000Z'' ''2024-01-01T00:00:00.000Z''"
    "created demo_env3 ''Untitled Resume'' =
              new_resume ''resume_lqx0hs00_b81jz03h'' ''Untitled Resume'' []
                  ''2024-01-03T00:00:00.000Z'' ''2024-01-03T00:00:00.000Z''"
    by (simp_all add: created_def demo_ids s)
  have ti: "create_title demo_platform NoBody = Inr ''Untitled Resume''"
    by (simp add: create_title_def bodyProp_def or_else_def)
  show ?thesis
    using c d e i ti
      list_sorted_newest_first [where ls = tied_store and rs = "[?a, ?b, ?c]" and pf = demo_platform
        and e = demo_env and b = NoBody and ?s0.0 = Map.empty and ?e1.0 = demo_env
        and ?e2.0 = demo_env2 and ?e3.0 = demo_env3 and ?e4.0 = demo_env4 and ?e5.0 = demo_env
        and ?b1.0 = NoBody and ?b2.0 = NoBody and ?b3.0 = NoBody
        and ?n1.0 = "''Untitled Resume''" and ?n2.0 = "''Untitled Resume''"
        and ?n3.0 = "''Untitled Resume''"
        and ?t1.0 = 1704067200000 and ?t3.0 = 1704240000000 and ?t4.0 = 1704326400000]
    by (simp add: n s demo_times demo_ids cr)
qed

text \<open>
  C4, as the claim states it for every stored collection, fails. On a stored collection
  with a \<^verbatim>\<open>null\<close> entry the comparator throws when it reads \<^verbatim>\<open>updatedAt\<close> of \<^verbatim>\<open>null\<close>, so
  it is not consistent and the engine, which has to compare the two entries, passes the
  TypeError on; on a stored value that is not an array there is no \<^verbatim>\<open>sort\<close> in any
  engine. Either way the request rejects with a TypeError and returns no list.
\<close>

theorem list_null_entry_counterexample:
  "collection null_entry_store = JArr [JNull, stamped ''a'' ''2024-01-01T00:00:00.000Z'']
   \<and> fst (handleRequest demo_platform demo_env null_entry_store ''GET'' ''/api/users/resumes'' NoBody)
       = Inl TypeError
   \<and> collection object_store = JObj [(''a'', stamped ''a'' ''2024-01-01T00:00:00.000Z'')]
   \<and> fst (handleRequest demo_platform demo_env object_store ''GET'' ''/api/users/resumes'' NoBody)
       = Inl TypeError"
proof -
  have c1: "collection null_entry_store = JArr [JNull, stamped ''a'' ''2024-01-01T00:00:00.000Z'']"
    by (simp add: collection_eq readJson_cases ensureSeed_eq null_entry_store_def LS_KEYS_distinct
        no_usable_json_def)
  have c2: "collection object_store = JObj [(''a'', stamped ''a'' ''2024-01-01T00:00:00.000Z'')]"
    by (simp add: collection_eq readJson_cases ensureSeed_eq object_store_def LS_KEYS_distinct
        no_usable_json_def)
  have g: "getResumes (ensureSeed ls) = (collection ls, ensureSeed ls)" for ls
    by (simp add: getResumes_eq collection_ensureSeed ensureSeed_idem)
  have r1: "fst (handleRequest demo_platform demo_env null_entry_store ''GET'' ''/api/users/resumes'' NoBody)
       = Inl TypeError"
    by (simp add: handleRequest_users_resumes users_resumes_def g c1 array_sort_def
        consistent_comparator_def SortCompare_def compare_updatedAt_def demo_platform_def
        stamped_def getProp_def)
  have r2: "fst (handleRequest demo_platform demo_env object_store ''GET'' ''/api/users/resumes'' NoBody)
       = Inl TypeError"
    by (simp add: handleRequest_users_resumes users_resumes_def g c2)
  show ?thesis using c1 c2 r1 r2 by simp
qed

section \<open>Properties of the create and get routes\<close>

lemma digit36_no_terminator: "d < 36 \<Longrightarrow> \<not> is_line_terminator (digit36 d)"
proof -
  assume "d < 36"
  then have "digit36 d \<in> set ''0123456789abcdefghijklmnopqrstuvwxyz''"
    unfolding digit36_def by (intro nth_mem) simp
  then show ?thesis by (auto simp: is_line_terminator_def)
qed

lemma toString36_no_terminator: "list_all (\<lambda>c. \<not> is_line_terminator c) (toString36 n)"
proof (induction n rule: toString36.induct)
  case (1 n)
  show ?case
  proof (cases "n < 36")
    case True
    then show ?thesis by (subst toString36.simps) (simp add: digit36_no_terminator)
  next
    case False
    then show ?thesis
      using 1 by (subst toString36.simps) (simp add: digit36_no_terminator)
  qed
qed

lemma makeId_resume_no_terminator:
  "list_all (\<lambda>c. \<not> is_line_terminator c) (mathRandom36 e) \<Longrightarrow>
     list_all (\<lambda>c. \<not> is_line_terminator c) (makeId (Some ''resume'') e)"
proof -
  assume a: "list_all (\<lambda>c. \<not> is_line_terminator c) (mathRandom36 e)"
  have "set (slice 2 10 (mathRandom36 e)) \<subseteq> set (mathRandom36 e)"
    unfolding slice_def by (meson in_set_dropD in_set_takeD subsetI)
  then have s: "list_all (\<lambda>c. \<not> is_line_terminator c) (slice 2 10 (mathRandom36 e))"
    using a unfolding list_all_iff by blast
  have p: "list_all (\<lambda>c. \<not> is_line_terminator c) ''resume_''"
    "list_all (\<lambda>c. \<not> is_line_terminator c) ''_''"
    by (simp_all add: is_line_terminator_def)
  have "makeId (Some ''resume'') e = ''resume_'' @ toString36 (dateNow e) @ ''_'' @ slice 2 10 (mathRandom36 e)"
    by (simp add: makeId_def)
  then show ?thesis
    using s p toString36_no_terminator [of "dateNow e"] by (simp only: list_all_append simp_thms)
qed

lemma match_param_append:
  "rid \<noteq> [] \<Longrightarrow> list_all (\<lambda>c. \<not> is_line_terminator c) rid \<Longrightarrow>
     match_param prefix (prefix @ rid) = Some rid"
  by (simp add: match_param_def startsWith_def)

lemma handleRequest_get:
  assumes "rid \<noteq> []" "list_all (\<lambda>c. \<not> is_line_terminator c) rid"
  shows "handleRequest pf e ls ''GET'' (''/api/resumes/get/'' @ rid) b = resumes_get pf (ensureSeed ls) rid"
proof -
  have m: "match_param ''/api/resumes/get/'' (''/api/resumes/get/'' @ rid) = Some rid"
    using assms by (rule match_param_append)
  have n: "normalizeUrl (''/api/resumes/get/'' @ rid) = ''/api/resumes/get/'' @ rid"
    by (simp add: normalizeUrl_slash)
  show ?thesis
    unfolding handleRequest_def Let_def n m by simp
qed

lemma array_findIndex_bound:
  "array_findIndex u n rs = Inr (Some k) \<Longrightarrow> n \<le> k \<and> k < n + length rs"
proof (induction rs arbitrary: n)
  case Nil
  then show ?case by simp
next
  case (Cons r rs)
  then show ?case
    by (fastforce split: sum.splits if_splits)
qed

lemma array_find_after_replace:
  assumes "getProp u ''_id'' = Inr (Some (JStr i))"
  shows "array_findIndex u n rs = Inr (Some k) \<Longrightarrow>
           array_find (Some (JStr i)) (rs[k - n := u]) = Inr (Some u)"
proof (induction rs arbitrary: n)
  case Nil
  then show ?case by simp
next
  case (Cons r rs)
  show ?case
  proof (cases "getProp r ''_id''")
    case (Inl err)
    then show ?thesis using Cons.prems by simp
  next
    case (Inr a)
    show ?thesis
    proof (cases "strict_eq a (Some (JStr i))")
      case True
      then show ?thesis using Cons.prems Inr assms by simp
    next
      case False
      then have rec: "array_findIndex u (Suc n) rs = Inr (Some k)"
        using Cons.prems Inr assms by simp
      then have "Suc n \<le> k" using array_findIndex_bound by blast
      then have "k - n = Suc (k - Suc n)" by simp
      then show ?thesis using Cons.IH [OF rec] Inr False by simp
    qed
  qed
qed

lemma array_find_after_append:
  assumes "getProp u ''_id'' = Inr (Some (JStr i))"
  shows "array_findIndex u n rs = Inr None \<Longrightarrow>
           array_find (Some (JStr i)) (rs @ [u]) = Inr (Some u)"
proof (induction rs arbitrary: n)
  case Nil
  then show ?case using assms by simp
next
  case (Cons r rs)
  then show ?case using assms
    by (cases "getProp r ''_id''") (auto split: if_splits)
qed

lemma array_findIndex_no_null:
  assumes "getProp u ''_id'' = Inr x"
  shows "JNull \<notin> set rs \<Longrightarrow> \<exists>k. array_findIndex u n rs = Inr k"
proof (induction rs arbitrary: n)
  case Nil
  then show ?case by simp
next
  case (Cons r rs)
  then have "r \<noteq> JNull" by auto
  then obtain a where "getProp r ''_id'' = Inr a"
    by (cases r) (simp_all add: getProp_def)
  then show ?case using Cons assms by simp
qed

lemma ensureSeed_setResumes:
  "truthy v \<Longrightarrow> ensureSeed (setResumes (ensureSeed ls) v) = setResumes (ensureSeed ls) v"
proof
  fix k
  assume v: "truthy v"
  show "ensureSeed (setResumes (ensureSeed ls) v) k = setResumes (ensureSeed ls) v k"
    using ensureSeed_seeded [of ls] v LS_KEYS_distinct
    by (subst ensureSeed_eq)
       (auto simp: setResumes_def writeJson_def JSON_stringify_def no_usable_json_def)
qed

lemma resumes_get_found:
  assumes "collection ls = JArr rs" "decodeURIComponent pf rid = Some rid"
    and "array_find (Some (JStr rid)) rs = Inr (Some r)"
  shows "resumes_get pf (ensureSeed ls) rid = (Inr (JObj [(''resume'', r)]), ensureSeed ls)"
  using assms
  by (simp add: resumes_get_def findResume_eq collection_ensureSeed ensureSeed_idem)

lemma create_then_get:
  assumes "collection ls = JArr rs" and "JNull \<notin> set rs"
    and "bodyProp b ''title'' = Some (JStr ''My CV'')"
    and "list_all (\<lambda>c. \<not> is_line_terminator c) (mathRandom36 e)"
    and "decodeURIComponent pf (makeId (Some ''resume'') e) = Some (makeId (Some ''resume'') e)"
  shows "fst (handleRequest pf e ls ''POST'' ''/api/resumes/create'' b) =
           Inr (JObj [(''resume'', new_resume (makeId (Some ''resume'') e) ''My CV'' [] (nowIso1 e) (nowIso2 e)),
                      (''message'', JStr ''Resume created'')])
       \<and> handleRequest pf e' (snd (handleRequest pf e ls ''POST'' ''/api/resumes/create'' b)) ''GET''
             (''/api/resumes/get/'' @ makeId (Some ''resume'') e) b' =
           (Inr (JObj [(''resume'', new_resume (makeId (Some ''resume'') e) ''My CV'' [] (nowIso1 e) (nowIso2 e))]),
            snd (handleRequest pf e ls ''POST'' ''/api/resumes/create'' b))
       \<and> getProp (new_resume (makeId (Some ''resume'') e) ''My CV'' [] (nowIso1 e) (nowIso2 e)) ''title''
             = Inr (Some (JStr ''My CV''))
       \<and> getProp (new_resume (makeId (Some ''resume'') e) ''My CV'' [] (nowIso1 e) (nowIso2 e)) ''public''
             = Inr (Some (JBool False))
       \<and> getProp (new_resume (makeId (Some ''resume'') e) ''My CV'' [] (nowIso1 e) (nowIso2 e)) ''createdAt''
             = Inr (Some (JStr (nowIso1 e)))
       \<and> getProp (new_resume (makeId (Some ''resume'') e) ''My CV'' [] (nowIso1 e) (nowIso2 e)) ''updatedAt''
             = Inr (Some (JStr (nowIso2 e)))"
proof -
  let ?rid = "makeId (Some ''resume'') e"
  let ?R = "new_resume ?rid ''My CV'' [] (nowIso1 e) (nowIso2 e)"
  let ?post = "handleRequest pf e ls ''POST'' ''/api/resumes/create'' b"
  have T: "create_title pf b = Inr ''My CV''"
    using assms(3) by (simp add: create_title_def or_else_def)
  have R: "created e ''My CV'' = ?R"
    by (simp add: created_def)
  have ne: "?rid \<noteq> []" by (simp add: makeId_def)
  have nt: "list_all (\<lambda>c. \<not> is_line_terminator c) ?rid"
    using assms(4) by (rule makeId_resume_no_terminator)
  have id: "getProp ?R ''_id'' = Inr (Some (JStr ?rid))" by simp
  obtain k where k: "array_findIndex ?R 0 rs = Inr k"
    using array_findIndex_no_null [OF id assms(2)] by blast
  obtain rs' where post: "?post =
        (Inr (JObj [(''resume'', ?R), (''message'', JStr ''Resume created'')]),
         setResumes (ensureSeed ls) (JArr rs'))"
    and found: "array_find (Some (JStr ?rid)) rs' = Inr (Some ?R)"
  proof (cases k)
    case None
    show ?thesis
    proof (rule that [of "rs @ [?R]"])
      show "?post = (Inr (JObj [(''resume'', ?R), (''message'', JStr ''Resume created'')]),
                     setResumes (ensureSeed ls) (JArr (rs @ [?R])))"
        using k None assms(1) by (simp add: handleRequest_create resumes_create_eq [OF _ T] R)
      show "array_find (Some (JStr ?rid)) (rs @ [?R]) = Inr (Some ?R)"
        using array_find_after_append [OF id] k None by blast
    qed
  next
    case (Some idx)
    show ?thesis
    proof (rule that [of "rs[idx := ?R]"])
      show "?post = (Inr (JObj [(''resume'', ?R), (''message'', JStr ''Resume created'')]),
                     setResumes (ensureSeed ls) (JArr (rs[idx := ?R])))"
        using k Some assms(1) by (simp add: handleRequest_create resumes_create_eq [OF _ T] R)
      show "array_find (Some (JStr ?rid)) (rs[idx := ?R]) = Inr (Some ?R)"
        using array_find_after_replace [OF id, of 0 rs idx] k Some by simp
    qed
  qed
  let ?S = "setResumes (ensureSeed ls) (JArr rs')"
  have c: "collection ?S = JArr rs'" by (simp add: collection_setResumes)
  have S: "ensureSeed ?S = ?S" by (simp add: ensureSeed_setResumes)
  have "handleRequest pf e' ?S ''GET'' (''/api/resumes/get/'' @ ?rid) b' =
          resumes_get pf (ensureSeed ?S) ?rid"
    by (rule handleRequest_get [OF ne nt])
  also have "\<dots> = (Inr (JObj [(''resume'', ?R)]), ensureSeed ?S)"
    by (rule resumes_get_found [OF c assms(5) found])
  finally have get: "handleRequest pf e' ?S ''GET'' (''/api/resumes/get/'' @ ?rid) b' =
          (Inr (JObj [(''resume'', ?R)]), ?S)"
    unfolding S .
  have props: "getProp ?R ''title'' = Inr (Some (JStr ''My CV''))"
    "getProp ?R ''public'' = Inr (Some (JBool False))"
    "getProp ?R ''createdAt'' = Inr (Some (JStr (nowIso1 e)))"
    "getProp ?R ''updatedAt'' = Inr (Some (JStr (nowIso2 e)))"
    by (simp_all add: new_resume_def getProp_def)
  show ?thesis
    unfolding post fst_conv snd_conv using get props by blast
qed

text \<open>
  C2, as the code has it. On a stored collection that is an array without \<^verbatim>\<open>null\<close>
  elements, creating a resume with title \<^verbatim>\<open>My CV\<close> and fetching it by the returned id
  yields the created resume: its title is \<^verbatim>\<open>My CV\<close>, its \<^verbatim>\<open>public\<close> flag is false, its
  \<^verbatim>\<open>createdAt\<close> is the first and its \<^verbatim>\<open>updatedAt\<close> the second clock reading of the create
  request (so the two are equal exactly when the two readings are). The random part of
  the id has no line terminator and the id decodes to itself, as every id that
  \<^verbatim>\<open>makeId\<close> builds does.
\<close>

theorem create_then_get_round_trip:
  assumes "collection ls = JArr rs" and "JNull \<notin> set rs"
    and "bodyProp b ''title'' = Some (JStr ''My CV'')"
    and "list_all (\<lambda>c. \<not> is_line_terminator c) (mathRandom36 e)"
    and "decodeURIComponent pf (makeId (Some ''resume'') e) = Some (makeId (Some ''resume'') e)"
  shows "fst (handleRequest pf e ls ''POST'' ''/api/resumes/create'' b) =
           Inr (JObj [(''resume'', new_resume (makeId (Some ''resume'') e) ''My CV'' [] (nowIso1 e) (nowIso2 e)),
                      (''message'', JStr ''Resume created'')])
       \<and> handleRequest pf e' (snd (handleRequest pf e ls ''POST'' ''/api/resumes/create'' b)) ''GET''
             (''/api/resumes/get/'' @ makeId (Some ''resume'') e) b' =
           (Inr (JObj [(''resume'', new_resume (makeId (Some ''resume'') e) ''My CV'' [] (nowIso1 e) (nowIso2 e))]),
            snd (handleRequest pf e ls ''POST'' ''/api/resumes/create'' b))
       \<and> getProp (new_resume (makeId (Some ''resume'') e) ''My CV'' [] (nowIso1 e) (nowIso2 e)) ''title''
             = Inr (Some (JStr ''My CV''))
       \<and> getProp (new_resume (makeId (Some ''resume'') e) ''My CV'' [] (nowIso1 e) (nowIso2 e)) ''public''
             = Inr (Some (JBool False))
       \<and> getProp (new_resume (makeId (Some ''resume'') e) ''My CV'' [] (nowIso1 e) (nowIso2 e)) ''createdAt''
             = Inr (Some (JStr (nowIso1 e)))
       \<and> getProp (new_resume (makeId (Some ''resume'') e) ''My CV'' [] (nowIso1 e) (nowIso2 e)) ''updatedAt''
             = Inr (Some (JStr (nowIso2 e)))"
  using assms by (rule create_then_get)

lemma collection_empty: "collection Map.empty = JArr []"
  by (simp add: collection_eq readJson_cases ensureSeed_eq LS_KEYS_distinct no_usable_json_def)

lemma demo_id_decodes:
  "decodeURIComponent demo_platform ''resume_lqu5m2o0_4fzyo82m'' = Some ''resume_lqu5m2o0_4fzyo82m''"
  by (simp add: demo_platform_def)

lemma tick_id: "makeId (Some ''resume'') tick_env = ''resume_lqu5m2o0_4fzyo82m''"
  by (simp add: makeId_def tick_env_def slice_def toString36.simps digit36_def)

theorem create_then_get_round_trip_witness:
  "collection Map.empty = JArr []
   \<and> bodyProp my_cv ''title'' = Some (JStr ''My CV'')
   \<and> list_all (\<lambda>c. \<not> is_line_terminator c) (mathRandom36 demo_env)
   \<and> decodeURIComponent demo_platform (makeId (Some ''resume'') demo_env)
       = Some (makeId (Some ''resume'') demo_env)
   \<and> handleRequest demo_platform demo_env2
         (snd (handleRequest demo_platform demo_env Map.empty ''POST'' ''/api/resumes/create'' my_cv))
         ''GET'' ''/api/resumes/get/resume_lqu5m2o0_4fzyo82m'' NoBody =
       (Inr (JObj [(''resume'', new_resume ''resume_lqu5m2o0_4fzyo82m'' ''My CV'' []
                                  ''2024-01-01T00:00:00.000Z'' ''2024-01-01T00:00:00.000Z'')]),
        snd (handleRequest demo_platform demo_env Map.empty ''POST'' ''/api/resumes/create'' my_cv))"
proof -
  have h1: "collection Map.empty = JArr []" by (rule collection_empty)
  have h2: "JNull \<notin> set []" by simp
  have h3: "bodyProp my_cv ''title'' = Some (JStr ''My CV'')"
    by (simp add: my_cv_def bodyProp_def getProp_def)
  have h4: "list_all (\<lambda>c. \<not> is_line_terminator c) (mathRandom36 demo_env)"
    by (simp add: demo_env_def is_line_terminator_def)
  have h5: "decodeURIComponent demo_platform (makeId (Some ''resume'') demo_env)
              = Some (makeId (Some ''resume'') demo_env)"
    by (simp add: demo_ids demo_id_decodes)
  have n: "nowIso1 demo_env = ''2024-01-01T00:00:00.000Z''" "nowIso2 demo_env = ''2024-01-01T00:00:00.000Z''"
    by (simp_all add: demo_env_def)
  show ?thesis
    using h1 h3 h4 h5
      create_then_get_round_trip [OF h1 h2 h3 h4 h5, of demo_env2 NoBody]
    by (simp add: demo_ids n)
qed

text \<open>
  C2, as the claim states it, fails: when the clock ticks between the two calls of
  \<^verbatim>\<open>nowIso()\<close>, the fetched resume has a \<^verbatim>\<open>createdAt\<close> that differs from its \<^verbatim>\<open>updatedAt\<close>.
\<close>

theorem create_then_get_timestamps_counterexample:
  "handleRequest demo_platform demo_env2
       (snd (handleRequest demo_platform tick_env Map.empty ''POST'' ''/api/resumes/create'' my_cv))
       ''GET'' ''/api/resumes/get/resume_lqu5m2o0_4fzyo82m'' NoBody =
     (Inr (JObj [(''resume'', new_resume ''resume_lqu5m2o0_4fzyo82m'' ''My CV'' []
                                ''2024-01-01T00:00:00.000Z'' ''2024-01-01T00:00:00.001Z'')]),
      snd (handleRequest demo_platform tick_env Map.empty ''POST'' ''/api/resumes/create'' my_cv))
   \<and> getProp (new_resume ''resume_lqu5m2o0_4fzyo82m'' ''My CV'' []
                 ''2024-01-01T00:00:00.000Z'' ''2024-01-01T00:00:00.001Z'') ''createdAt''
       \<noteq> getProp (new_resume ''resume_lqu5m2o0_4fzyo82m'' ''My CV'' []
                 ''2024-01-01T00:00:00.000Z'' ''2024-01-01T00:00:00.001Z'') ''updatedAt''"
proof -
  have h2: "JNull \<notin> set []" by simp
  have h3: "bodyProp my_cv ''title'' = Some (JStr ''My CV'')"
    by (simp add: my_cv_def bodyProp_def getProp_def)
  have h4: "list_all (\<lambda>c. \<not> is_line_terminator c) (mathRandom36 tick_env)"
    by (simp add: tick_env_def is_line_terminator_def)
  have h5: "decodeURIComponent demo_platform (makeId (Some ''resume'') tick_env)
              = Some (makeId (Some ''resume'') tick_env)"
    by (simp add: tick_id demo_id_decodes)
  have n: "nowIso1 tick_env = ''2024-01-01T00:00:00.000Z''" "nowIso2 tick_env = ''2024-01-01T00:00:00.001Z''"
    by (simp_all add: tick_env_def)
  show ?thesis
    using create_then_get [OF collection_empty h2 h3 h4 h5, of demo_env2 NoBody]
    by (simp add: tick_id n)
qed

section \<open>Properties of the update route\<close>

lemma map_of_insert_index:
  "map_of kvs k = None \<Longrightarrow> map_of (insert_index n k v kvs) = (map_of kvs)(k \<mapsto> v)"
proof (induction kvs)
  case Nil
  then show ?case by simp
next
  case (Cons p kvs)
  obtain k' v' where p: "p = (k', v')" by (cases p)
  have ne: "k' \<noteq> k" and rest: "map_of kvs k = None"
    using Cons.prems p by (auto split: if_splits)
  show ?case
    using Cons.IH [OF rest] ne p
    by (auto simp: fun_upd_twist split: option.splits)
qed

lemma map_of_set_prop: "map_of (set_prop k v kvs) = (map_of kvs)(k \<mapsto> v)"
  by (simp add: set_prop_def map_of_insert_index update_conv' split: option.splits)

lemma keys_insert_index: "fst ` set (insert_index n k v kvs) = insert k (fst ` set kvs)"
  by (induction kvs) (auto split: option.splits)

lemma distinct_insert_index:
  "map_of kvs k = None \<Longrightarrow> distinct (map fst kvs) \<Longrightarrow>
     distinct (map fst (insert_index n k v kvs))"
proof (induction kvs)
  case Nil
  then show ?case by simp
next
  case (Cons p kvs)
  obtain k' v' where p: "p = (k', v')" by (cases p)
  have ne: "k' \<noteq> k" and rest: "map_of kvs k = None"
    using Cons.prems p by (auto split: if_splits)
  have nk: "k \<notin> fst ` set kvs" using rest by (simp add: map_of_eq_None_iff)
  show ?case
    using Cons.IH [OF rest] Cons.prems(2) ne p nk keys_insert_index [of n k v kvs]
    by (auto split: option.splits)
qed

lemma distinct_set_prop:
  "distinct (map fst kvs) \<Longrightarrow> distinct (map fst (set_prop k v kvs))"
  by (simp add: set_prop_def distinct_insert_index distinct_update split: option.splits)

lemma map_of_fold_set_prop:
  "map_of (fold (\<lambda>(k, x). set_prop k x) props acc) = map_of acc ++ map_of (rev props)"
proof (induction props arbitrary: acc)
  case Nil
  then show ?case by simp
next
  case (Cons p props)
  obtain k x where p: "p = (k, x)" by (cases p)
  have "map_of (fold (\<lambda>(k, x). set_prop k x) (p # props) acc)
          = map_of (set_prop k x acc) ++ map_of (rev props)"
    using Cons [of "set_prop k x acc"] p by simp
  also have "\<dots> = (map_of acc)(k \<mapsto> x) ++ map_of (rev props)"
    by (simp add: map_of_set_prop)
  also have "\<dots> = map_of acc ++ (map_of (rev props @ [(k, x)]))"
    by (simp add: map_add_upd_left fun_eq_iff map_add_def split: option.splits)
  finally show ?case using p by simp
qed

lemma map_of_spread_into: "map_of (spread_into acc v) = map_of acc ++ object_map v"
  by (simp add: spread_into_def object_map_def map_of_fold_set_prop)

lemma object_map_dom: "k \<notin> fst ` set (own_props v) \<Longrightarrow> object_map v k = None"
  by (simp add: object_map_def map_of_eq_None_iff)

lemma map_of_rev_distinct: "distinct (map fst xs) \<Longrightarrow> map_of (rev xs) = map_of xs"
proof (induction xs)
  case Nil
  then show ?case by simp
next
  case (Cons x xs)
  obtain k v where x: "x = (k, v)" by (cases x)
  have "map_of xs k = None" using Cons.prems x by (simp add: map_of_eq_None_iff)
  then show ?case
    using Cons x by (auto simp: fun_eq_iff map_add_def split: option.splits)
qed

lemma object_map_distinct:
  "distinct (map fst kvs) \<Longrightarrow> object_map (JObj kvs) = map_of kvs"
  by (simp add: object_map_def own_props_def map_of_rev_distinct)

lemma array_find_Some:
  "array_find rid rs = Inr (Some x) \<Longrightarrow> x \<in> set rs \<and> x \<noteq> JNull \<and> getProp x ''_id'' \<noteq> Inl TypeError \<and>
     (\<exists>i. getProp x ''_id'' = Inr i \<and> strict_eq i rid)"
proof (induction rs)
  case Nil
  then show ?case by simp
next
  case (Cons r rs)
  then show ?case
    by (cases "getProp r ''_id''") (auto simp: getProp_def split: if_splits json.splits)
qed

lemma strict_eq_truthy_object:
  assumes "getProp x ''_id'' = Inr i" "strict_eq i rid" "truthy_opt rid"
  shows "\<exists>kvs. x = JObj kvs"
proof (cases x)
  case (JObj kvs)
  then show ?thesis by simp
qed (use assms in \<open>cases rid; auto simp: getProp_def\<close>)+

lemma array_find_no_null:
  "JNull \<notin> set rs \<Longrightarrow> \<exists>r. array_find rid rs = Inr r"
proof (induction rs)
  case Nil
  then show ?case by simp
next
  case (Cons r rs)
  then have "r \<noteq> JNull" by auto
  then obtain a where "getProp r ''_id'' = Inr a"
    by (cases r) (simp_all add: getProp_def)
  then show ?case using Cons by simp
qed

lemma resumes_update_eq:
  assumes "collection ls = JArr rs"
  shows "handleRequest pf e ls ''PUT'' ''/api/resumes/update'' b =
     (case update_args b of
        Inl err \<Rightarrow> (Inl err, ensureSeed ls)
      | Inr (resumeId, resumeData, imageFile) \<Rightarrow>
          if \<not> truthy_opt resumeId
          then (Inl (Structured (axiosLikeError ''resumeId is required'' (Some 400))), ensureSeed ls)
          else
            (case array_find resumeId rs of
               Inl err \<Rightarrow> (Inl err, ensureSeed ls)
             | Inr None \<Rightarrow> (Inl not_found, ensureSeed ls)
             | Inr (Some existing) \<Rightarrow>
                 (case build_next existing resumeData (nowIso1 e) of
                    Inl err \<Rightarrow> (Inl err, ensureSeed ls)
                  | Inr next0 \<Rightarrow>
                      (case array_findIndex (embed_image next0 imageFile) 0 rs of
                         Inl err \<Rightarrow> (Inl err, ensureSeed ls)
                       | Inr (Some idx) \<Rightarrow>
                           (Inr (JObj [(''resume'', embed_image next0 imageFile),
                                       (''message'', JStr ''Resume updated'')]),
                            setResumes (ensureSeed ls) (JArr (rs[idx := embed_image next0 imageFile])))
                       | Inr None \<Rightarrow>
                           (Inr (JObj [(''resume'', embed_image next0 imageFile),
                                       (''message'', JStr ''Resume updated'')]),
                            setResumes (ensureSeed ls) (JArr (rs @ [embed_image next0 imageFile])))))))"
proof (cases "update_args b")
  case (Inl err)
  then show ?thesis by (simp add: handleRequest_update resumes_update_def)
next
  case (Inr args)
  obtain resumeId resumeData imageFile where a: "args = (resumeId, resumeData, imageFile)"
    by (cases args)
  show ?thesis
  proof (cases "truthy_opt resumeId")
    case False
    then show ?thesis using Inr a by (simp add: handleRequest_update resumes_update_def)
  next
    case True
    have c: "collection (ensureSeed ls) = JArr rs"
      using assms by (simp add: collection_ensureSeed)
    show ?thesis
      using Inr a True assms
      by (simp add: handleRequest_update resumes_update_def
          findResume_eq [OF c truthy_opt_defined [OF True]] upsertResume_eq
          collection_ensureSeed ensureSeed_idem Let_def
          split: sum.splits option.splits prod.splits)
  qed
qed

lemma update_failure_store:
  "fst (handleRequest pf e ls ''PUT'' ''/api/resumes/update'' b) = Inl x \<Longrightarrow>
     snd (handleRequest pf e ls ''PUT'' ''/api/resumes/update'' b) = ensureSeed ls"
  by (auto simp: handleRequest_update resumes_update_def findResume_def upsertResume_def
      getResumes_eq ensureSeed_idem Let_def
      split: sum.splits option.splits prod.splits json.splits if_splits)

text \<open>
  C10, as the code has it. When \<^verbatim>\<open>PUT /api/resumes/update\<close> rejects with status 400 or
  404, the storage it leaves is the storage that the seeding at the start of every request
  produces: after the seeding the handler has written nothing. So a collection key that
  held a usable value holds the same text afterwards; a collection key that held none
  (it was missing, or its text was not JSON or a falsy JSON value) holds the empty
  collection, written by the seeding before the validation; the collection as the
  repository reads it is what it was; and a storage that was already seeded is left exactly
  as it was.
\<close>

theorem update_failure_leaves_storage:
  assumes "fst (handleRequest pf e ls ''PUT'' ''/api/resumes/update'' b) = Inl (Structured err)"
    and "status (response err) = 400 \<or> status (response err) = 404"
  shows "snd (handleRequest pf e ls ''PUT'' ''/api/resumes/update'' b) = ensureSeed ls
       \<and> (\<not> no_usable_json (ls LS_KEYS_resumes) \<longrightarrow>
            snd (handleRequest pf e ls ''PUT'' ''/api/resumes/update'' b) LS_KEYS_resumes
              = ls LS_KEYS_resumes)
       \<and> (no_usable_json (ls LS_KEYS_resumes) \<longrightarrow>
            snd (handleRequest pf e ls ''PUT'' ''/api/resumes/update'' b) LS_KEYS_resumes
              = Some (Encoded (JArr [])))
       \<and> collection (snd (handleRequest pf e ls ''PUT'' ''/api/resumes/update'' b)) = collection ls
       \<and> (ensureSeed ls = ls \<longrightarrow> snd (handleRequest pf e ls ''PUT'' ''/api/resumes/update'' b) = ls)"
proof -
  have s: "snd (handleRequest pf e ls ''PUT'' ''/api/resumes/update'' b) = ensureSeed ls"
    using assms(1) by (rule update_failure_store)
  have "\<not> no_usable_json (ls LS_KEYS_resumes) \<longrightarrow> ensureSeed ls LS_KEYS_resumes = ls LS_KEYS_resumes"
    using LS_KEYS_distinct by (simp add: ensureSeed_eq)
  moreover have "no_usable_json (ls LS_KEYS_resumes) \<longrightarrow>
                   ensureSeed ls LS_KEYS_resumes = Some (Encoded (JArr []))"
    using LS_KEYS_distinct by (simp add: ensureSeed_eq)
  ultimately show ?thesis
    unfolding s by (simp add: collection_ensureSeed)
qed

lemma seeded_store_seeded: "ensureSeed seeded_store = seeded_store"
  by (rule ext)
     (simp add: ensureSeed_eq seeded_store_def LS_KEYS_distinct no_usable_json_def no_item_def
       default_user_def)

lemma collection_seeded_store:
  "collection seeded_store = JArr [new_resume ''r1'' ''First'' []
                                 ''2024-01-01T00:00:00.000Z'' ''2024-01-01T00:00:00.000Z'']"
  by (simp add: collection_eq seeded_store_seeded readJson_cases)
     (simp add: seeded_store_def)

lemma update_without_id_400:
  "handleRequest pf e ls ''PUT'' ''/api/resumes/update'' NoBody =
     (Inl (Structured (axiosLikeError ''resumeId is required'' (Some 400))), ensureSeed ls)"
  by (simp add: handleRequest_update resumes_update_def update_args_def bodyProp_def)

lemma getProp_JObj: "getProp (JObj kvs) k = Inr (map_of kvs k)"
  by (simp add: getProp_def)

lemma update_unknown_id_404:
  "handleRequest pf e seeded_store ''PUT'' ''/api/resumes/update'' unknown_id_body =
     (Inl not_found, seeded_store)"
  by (simp add: resumes_update_eq [OF collection_seeded_store] update_args_def unknown_id_body_def
      bodyProp_def getProp_JObj or_else_def seeded_store_seeded)

theorem update_failure_leaves_storage_witness:
  "fst (handleRequest demo_platform demo_env Map.empty ''PUT'' ''/api/resumes/update'' NoBody)
     = Inl (Structured (axiosLikeError ''resumeId is required'' (Some 400)))
   \<and> status (response (axiosLikeError ''resumeId is required'' (Some 400))) = 400
   \<and> no_usable_json (Map.empty LS_KEYS_resumes)
   \<and> snd (handleRequest demo_platform demo_env Map.empty ''PUT'' ''/api/resumes/update'' NoBody)
       = ensureSeed Map.empty
   \<and> snd (handleRequest demo_platform demo_env Map.empty ''PUT'' ''/api/resumes/update'' NoBody)
         LS_KEYS_resumes = Some (Encoded (JArr []))
   \<and> collection (snd (handleRequest demo_platform demo_env Map.empty ''PUT'' ''/api/resumes/update'' NoBody))
       = JArr []
   \<and> fst (handleRequest demo_platform demo_env seeded_store ''PUT'' ''/api/resumes/update'' unknown_id_body)
       = Inl (Structured (axiosLikeError ''Resume not found'' (Some 404)))
   \<and> status (response (axiosLikeError ''Resume not found'' (Some 404))) = 404
   \<and> \<not> no_usable_json (seeded_store LS_KEYS_resumes)
   \<and> ensureSeed seeded_store = seeded_store
   \<and> snd (handleRequest demo_platform demo_env seeded_store ''PUT'' ''/api/resumes/update'' unknown_id_body)
       = seeded_store"
proof -
  have a: "fst (handleRequest demo_platform demo_env Map.empty ''PUT'' ''/api/resumes/update'' NoBody)
     = Inl (Structured (axiosLikeError ''resumeId is required'' (Some 400)))"
    by (simp add: update_without_id_400)
  have a4: "status (response (axiosLikeError ''resumeId is required'' (Some 400))) = 400
              \<or> status (response (axiosLikeError ''resumeId is required'' (Some 400))) = 404"
    by (simp add: axiosLikeError_def)
  have b: "fst (handleRequest demo_platform demo_env seeded_store ''PUT'' ''/api/resumes/update'' unknown_id_body)
       = Inl (Structured (axiosLikeError ''Resume not found'' (Some 404)))"
    by (simp add: update_unknown_id_404 not_found_def)
  have b4: "status (response (axiosLikeError ''Resume not found'' (Some 404))) = 400
              \<or> status (response (axiosLikeError ''Resume not found'' (Some 404))) = 404"
    by (simp add: axiosLikeError_def)
  have u: "\<not> no_usable_json (seeded_store LS_KEYS_resumes)"
    by (simp add: seeded_store_def no_usable_json_def)
  have v: "no_usable_json (Map.empty LS_KEYS_resumes)"
    by (simp add: no_usable_json_def)
  have w: "snd (handleRequest demo_platform demo_env Map.empty ''PUT'' ''/api/resumes/update'' NoBody)
             LS_KEYS_resumes = Some (Encoded (JArr []))"
    using update_failure_leaves_storage [OF a a4] v by blast
  show ?thesis
    using a b u v w seeded_store_seeded
      update_failure_leaves_storage [OF a a4] update_failure_leaves_storage [OF b b4]
    by (simp add: axiosLikeError_def collection_empty collection_ensureSeed)
qed

text \<open>
  C10, as the claim states it, fails: the seeding writes before the validation does. A
  rejected update on an empty storage leaves an empty collection under the collection key,
  which had no value before; and on a storage whose collection key held a text that is not
  JSON, a rejected update (status 400 as well as status 404) has replaced that text by the
  empty collection.
\<close>

theorem update_failure_seeding_counterexample:
  "fst (handleRequest demo_platform demo_env Map.empty ''PUT'' ''/api/resumes/update'' NoBody)
     = Inl (Structured (axiosLikeError ''resumeId is required'' (Some 400)))
   \<and> Map.empty LS_KEYS_resumes = None
   \<and> snd (handleRequest demo_platform demo_env Map.empty ''PUT'' ''/api/resumes/update'' NoBody)
         LS_KEYS_resumes = Some (Encoded (JArr []))
   \<and> fst (handleRequest demo_platform demo_env corrupted_collection_store ''PUT''
            ''/api/resumes/update'' NoBody)
       = Inl (Structured (axiosLikeError ''resumeId is required'' (Some 400)))
   \<and> fst (handleRequest demo_platform demo_env corrupted_collection_store ''PUT''
            ''/api/resumes/update'' unknown_id_body)
       = Inl (Structured (axiosLikeError ''Resume not found'' (Some 404)))
   \<and> corrupted_collection_store LS_KEYS_resumes = Some (Raw ''[{oops'')
   \<and> snd (handleRequest demo_platform demo_env corrupted_collection_store ''PUT''
            ''/api/resumes/update'' NoBody) LS_KEYS_resumes = Some (Encoded (JArr []))
   \<and> snd (handleRequest demo_platform demo_env corrupted_collection_store ''PUT''
            ''/api/resumes/update'' unknown_id_body) LS_KEYS_resumes = Some (Encoded (JArr []))"
proof -
  have k: "corrupted_collection_store LS_KEYS_resumes = Some (Raw ''[{oops'')"
    by (simp add: corrupted_collection_store_def)
  have sd: "ensureSeed corrupted_collection_store LS_KEYS_resumes = Some (Encoded (JArr []))"
    "ensureSeed Map.empty LS_KEYS_resumes = Some (Encoded (JArr []))"
    using LS_KEYS_distinct by (simp_all add: ensureSeed_eq k no_usable_json_def)
  have c: "collection corrupted_collection_store = JArr []"
    by (simp add: collection_eq readJson_cases sd)
  have r: "handleRequest demo_platform demo_env corrupted_collection_store ''PUT''
            ''/api/resumes/update'' unknown_id_body
           = (Inl not_found, ensureSeed corrupted_collection_store)"
    by (simp add: resumes_update_eq [OF c] update_args_def unknown_id_body_def
        bodyProp_def getProp_JObj or_else_def)
  show ?thesis
    using k sd by (simp add: update_without_id_400 r not_found_def)
qed

lemma build_next_object:
  assumes "rd \<noteq> JNull"
  shows "\<exists>nxt. build_next (JObj kvs) rd now = Inr (JObj nxt)"
  using assms by (cases rd) (simp_all add: build_next_def getProp_def Let_def)

lemma embed_image_object: "\<exists>kvs'. embed_image (JObj kvs) img = JObj kvs'"
  by (simp add: embed_image_def split: option.splits sum.splits)

lemma update_args_plain:
  "update_args NoBody = Inr (None, JObj [], None)"
  "update_args (JsonBody v) =
     Inr (bodyProp (JsonBody v) ''resumeId'', or_else (bodyProp (JsonBody v) ''resumeData'') (JObj []), None)"
  by (simp_all add: update_args_def bodyProp_def or_else_def)

lemma or_else_not_null: "or_else v (JObj []) \<noteq> JNull"
  by (auto simp: or_else_def split: option.splits)

lemma update_outcome:
  assumes c: "collection ls = JArr rs" and nn: "JNull \<notin> set rs"
  shows "(update_args b = Inl x \<longrightarrow>
            handleRequest pf e ls ''PUT'' ''/api/resumes/update'' b = (Inl x, ensureSeed ls))
       \<and> (update_args b = Inr (rid, rd, img) \<longrightarrow>
            (\<not> truthy_opt rid \<longrightarrow>
               handleRequest pf e ls ''PUT'' ''/api/resumes/update'' b =
                 (Inl (Structured (axiosLikeError ''resumeId is required'' (Some 400))), ensureSeed ls))
          \<and> (truthy_opt rid \<and> array_find rid rs = Inr None \<longrightarrow>
               handleRequest pf e ls ''PUT'' ''/api/resumes/update'' b =
                 (Inl (Structured (axiosLikeError ''Resume not found'' (Some 404))), ensureSeed ls))
          \<and> (truthy_opt rid \<and> array_find rid rs = Inr (Some existing) \<and> rd \<noteq> JNull \<longrightarrow>
               (\<exists>next0. build_next existing rd (nowIso1 e) = Inr next0
                  \<and> fst (handleRequest pf e ls ''PUT'' ''/api/resumes/update'' b) =
                      Inr (JObj [(''resume'', embed_image next0 img),
                                 (''message'', JStr ''Resume updated'')])))
          \<and> ((\<exists>err. fst (handleRequest pf e ls ''PUT'' ''/api/resumes/update'' b) = Inl (Structured err)
                     \<and> status (response err) = 400) \<longleftrightarrow> \<not> truthy_opt rid))
       \<and> ((\<forall>fd. b \<noteq> FormBody fd) \<longrightarrow>
            (\<exists>rid' rd'. update_args b = Inr (rid', rd', None) \<and> rd' \<noteq> JNull))"
proof (intro conjI impI)
  assume "update_args b = Inl x"
  then show "handleRequest pf e ls ''PUT'' ''/api/resumes/update'' b = (Inl x, ensureSeed ls)"
    by (simp add: resumes_update_eq [OF c])
next
  assume "update_args b = Inr (rid, rd, img)" "\<not> truthy_opt rid"
  then show "handleRequest pf e ls ''PUT'' ''/api/resumes/update'' b =
                 (Inl (Structured (axiosLikeError ''resumeId is required'' (Some 400))), ensureSeed ls)"
    by (simp add: resumes_update_eq [OF c])
next
  assume "update_args b = Inr (rid, rd, img)" "truthy_opt rid \<and> array_find rid rs = Inr None"
  then show "handleRequest pf e ls ''PUT'' ''/api/resumes/update'' b =
                 (Inl (Structured (axiosLikeError ''Resume not found'' (Some 404))), ensureSeed ls)"
    by (simp add: resumes_update_eq [OF c] not_found_def)
next
  assume a: "update_args b = Inr (rid, rd, img)"
    and f: "truthy_opt rid \<and> array_find rid rs = Inr (Some existing) \<and> rd \<noteq> JNull"
  obtain i where i: "getProp existing ''_id'' = Inr i" "strict_eq i rid"
    using array_find_Some f by blast
  obtain kvs where ex: "existing = JObj kvs"
    using strict_eq_truthy_object [OF i] f by blast
  obtain nxt where n: "build_next existing rd (nowIso1 e) = Inr (JObj nxt)"
    using build_next_object f ex by blast
  obtain kvs' where em: "embed_image (JObj nxt) img = JObj kvs'"
    using embed_image_object by blast
  have "getProp (JObj kvs') ''_id'' = Inr (map_of kvs' ''_id'')" by (rule getProp_JObj)
  then obtain k where "array_findIndex (JObj kvs') 0 rs = Inr k"
    using array_findIndex_no_null [OF _ nn] by blast
  then have "fst (handleRequest pf e ls ''PUT'' ''/api/resumes/update'' b) =
          Inr (JObj [(''resume'', embed_image (JObj nxt) img), (''message'', JStr ''Resume updated'')])"
    using a f n em by (cases k) (simp_all add: resumes_update_eq [OF c])
  then show "\<exists>next0. build_next existing rd (nowIso1 e) = Inr next0
                  \<and> fst (handleRequest pf e ls ''PUT'' ''/api/resumes/update'' b) =
                      Inr (JObj [(''resume'', embed_image next0 img),
                                 (''message'', JStr ''Resume updated'')])"
    using n by blast
next
  assume a: "update_args b = Inr (rid, rd, img)"
  show "(\<exists>err. fst (handleRequest pf e ls ''PUT'' ''/api/resumes/update'' b) = Inl (Structured err)
                     \<and> status (response err) = 400) \<longleftrightarrow> \<not> truthy_opt rid"
  proof
    assume "\<not> truthy_opt rid"
    then have "fst (handleRequest pf e ls ''PUT'' ''/api/resumes/update'' b) =
                 Inl (Structured (axiosLikeError ''resumeId is required'' (Some 400)))"
      using a by (simp add: resumes_update_eq [OF c])
    moreover have "status (response (axiosLikeError ''resumeId is required'' (Some 400))) = 400"
      by (simp add: axiosLikeError_def)
    ultimately show "\<exists>err. fst (handleRequest pf e ls ''PUT'' ''/api/resumes/update'' b) = Inl (Structured err)
                     \<and> status (response err) = 400"
      by blast
  next
    assume h: "\<exists>err. fst (handleRequest pf e ls ''PUT'' ''/api/resumes/update'' b) = Inl (Structured err)
                     \<and> status (response err) = 400"
    show "\<not> truthy_opt rid"
    proof
      assume t: "truthy_opt rid"
      obtain r where r: "array_find rid rs = Inr r"
        using array_find_no_null [OF nn] by blast
      show False
      proof (cases r)
        case None
        then have "fst (handleRequest pf e ls ''PUT'' ''/api/resumes/update'' b) =
                 Inl (Structured (axiosLikeError ''Resume not found'' (Some 404)))"
          using a t r by (simp add: resumes_update_eq [OF c] not_found_def)
        then show False using h by (auto simp: axiosLikeError_def)
      next
        case (Some existing)
        obtain i where i: "getProp existing ''_id'' = Inr i" "strict_eq i rid"
          using array_find_Some r Some by blast
        obtain kvs where ex: "existing = JObj kvs"
          using strict_eq_truthy_object [OF i t] by blast
        show False
        proof (cases "build_next existing rd (nowIso1 e)")
          case (Inl err)
          then have "err = TypeError"
            by (auto simp: build_next_def getProp_def Let_def ex split: json.splits)
          then have "fst (handleRequest pf e ls ''PUT'' ''/api/resumes/update'' b) = Inl TypeError"
            using a t r Some Inl by (simp add: resumes_update_eq [OF c])
          then show False using h by simp
        next
          case (Inr next0)
          then obtain nxt where n0: "next0 = JObj nxt"
            by (auto simp: build_next_def Let_def split: sum.splits)
          obtain kvs' where em: "embed_image next0 img = JObj kvs'"
            using embed_image_object n0 by blast
          have "getProp (JObj kvs') ''_id'' = Inr (map_of kvs' ''_id'')" by (rule getProp_JObj)
          then obtain k where "array_findIndex (JObj kvs') 0 rs = Inr k"
            using array_findIndex_no_null [OF _ nn] by blast
          then have "\<exists>res. fst (handleRequest pf e ls ''PUT'' ''/api/resumes/update'' b) = Inr res"
            using a t r Some Inr em by (cases k) (simp_all add: resumes_update_eq [OF c])
          then show False using h by auto
        qed
      qed
    qed
  qed
next
  assume "\<forall>fd. b \<noteq> FormBody fd"
  then show "\<exists>rid' rd'. update_args b = Inr (rid', rd', None) \<and> rd' \<noteq> JNull"
    by (cases b) (simp_all add: update_args_plain or_else_not_null)
qed

lemma update_args_malformed: "update_args (FormBody malformed_form) = Inl SyntaxError"
  by (simp add: update_args_def malformed_form_def no_item_def JSON_parse_def)

lemma seeded_store_find:
  "array_find (Some (JStr ''r1'')) [new_resume ''r1'' ''First'' []
       ''2024-01-01T00:00:00.000Z'' ''2024-01-01T00:00:00.000Z''] =
     Inr (Some (new_resume ''r1'' ''First'' [] ''2024-01-01T00:00:00.000Z'' ''2024-01-01T00:00:00.000Z''))"
  "array_find (Some (JStr ''r9'')) [new_resume ''r1'' ''First'' []
       ''2024-01-01T00:00:00.000Z'' ''2024-01-01T00:00:00.000Z''] = Inr None"
  by simp_all

text \<open>
  C7, as the code has it. Let the stored collection be an array without \<^verbatim>\<open>null\<close>
  elements, and let the body be one from which the handler gets its three arguments (a
  plain body always is). The request fails with status 400 if and only if \<^verbatim>\<open>resumeId\<close>
  is missing or falsy (undefined, \<^verbatim>\<open>null\<close>, the empty string, \<^verbatim>\<open>0\<close>, \<^verbatim>\<open>false\<close>); it fails
  with status 404 when \<^verbatim>\<open>resumeId\<close> is truthy and no stored resume has that id; and when a
  stored resume has that id and \<^verbatim>\<open>resumeData\<close> is not \<^verbatim>\<open>null\<close> (it never is for a plain
  body), the request succeeds and returns the merged resume.
\<close>

theorem update_status_by_resumeId:
  assumes "collection ls = JArr rs" and "JNull \<notin> set rs"
    and "update_args b = Inr (rid, rd, img)"
  shows "((\<exists>err. fst (handleRequest pf e ls ''PUT'' ''/api/resumes/update'' b) = Inl (Structured err)
              \<and> status (response err) = 400) \<longleftrightarrow> \<not> truthy_opt rid)
       \<and> (\<not> truthy_opt rid \<longrightarrow>
            handleRequest pf e ls ''PUT'' ''/api/resumes/update'' b =
              (Inl (Structured (axiosLikeError ''resumeId is required'' (Some 400))), ensureSeed ls))
       \<and> (truthy_opt rid \<and> array_find rid rs = Inr None \<longrightarrow>
            handleRequest pf e ls ''PUT'' ''/api/resumes/update'' b =
              (Inl (Structured (axiosLikeError ''Resume not found'' (Some 404))), ensureSeed ls))
       \<and> (truthy_opt rid \<and> array_find rid rs = Inr (Some existing) \<and> rd \<noteq> JNull \<longrightarrow>
            (\<exists>next0. build_next existing rd (nowIso1 e) = Inr next0
               \<and> fst (handleRequest pf e ls ''PUT'' ''/api/resumes/update'' b) =
                   Inr (JObj [(''resume'', embed_image next0 img),
                              (''message'', JStr ''Resume updated'')])))
       \<and> ((\<forall>fd. b \<noteq> FormBody fd) \<longrightarrow> rd \<noteq> JNull \<and> img = None)"
proof -
  note o = update_outcome [OF assms(1,2), of b _ pf e rid rd img existing]
  have "(\<forall>fd. b \<noteq> FormBody fd) \<longrightarrow> rd \<noteq> JNull \<and> img = None"
    using o assms(3) by auto
  then show ?thesis using o assms(3) by blast
qed

text \<open>
  C7, as the claim states it, fails. A body that carries the empty string as its
  \<^verbatim>\<open>resumeId\<close> is rejected with status 400: the presence check is a truthiness test. And
  a multi-part body without a \<^verbatim>\<open>resumeId\<close> part whose \<^verbatim>\<open>resumeData\<close> part is not JSON is
  rejected with a SyntaxError, which has no status.
\<close>

theorem update_presence_check_counterexample:
  "bodyProp empty_id_body ''resumeId'' = Some (JStr [])
   \<and> handleRequest demo_platform demo_env seeded_store ''PUT'' ''/api/resumes/update'' empty_id_body
       = (Inl (Structured (axiosLikeError ''resumeId is required'' (Some 400))), seeded_store)
   \<and> form_resumeId malformed_form = None
   \<and> handleRequest demo_platform demo_env seeded_store ''PUT'' ''/api/resumes/update''
         (FormBody malformed_form) = (Inl SyntaxError, seeded_store)"
proof -
  have a: "update_args empty_id_body = Inr (Some (JStr []), JObj [], None)"
    by (simp add: empty_id_body_def update_args_plain bodyProp_def getProp_JObj or_else_def)
  have "handleRequest demo_platform demo_env seeded_store ''PUT'' ''/api/resumes/update'' empty_id_body
       = (Inl (Structured (axiosLikeError ''resumeId is required'' (Some 400))), seeded_store)"
    by (simp add: resumes_update_eq [OF collection_seeded_store] a seeded_store_seeded)
  moreover have "handleRequest demo_platform demo_env seeded_store ''PUT'' ''/api/resumes/update''
         (FormBody malformed_form) = (Inl SyntaxError, seeded_store)"
    by (simp add: resumes_update_eq [OF collection_seeded_store] update_args_malformed
        seeded_store_seeded)
  moreover have "bodyProp empty_id_body ''resumeId'' = Some (JStr [])"
    by (simp add: empty_id_body_def bodyProp_def getProp_JObj)
  moreover have "form_resumeId malformed_form = None"
    by (simp add: malformed_form_def)
  ultimately show ?thesis by blast
qed

theorem update_status_by_resumeId_witness:
  "collection seeded_store = JArr [new_resume ''r1'' ''First'' []
                                 ''2024-01-01T00:00:00.000Z'' ''2024-01-01T00:00:00.000Z'']
   \<and> update_args NoBody = Inr (None, JObj [], None)
   \<and> handleRequest demo_platform demo_env4 seeded_store ''PUT'' ''/api/resumes/update'' NoBody =
         (Inl (Structured (axiosLikeError ''resumeId is required'' (Some 400))), seeded_store)
   \<and> update_args unknown_id_body = Inr (Some (JStr ''r9''), JObj [], None)
   \<and> handleRequest demo_platform demo_env4 seeded_store ''PUT'' ''/api/resumes/update'' unknown_id_body =
         (Inl (Structured (axiosLikeError ''Resume not found'' (Some 404))), seeded_store)
   \<and> update_args (update_empty ''r1'') = Inr (Some (JStr ''r1''), JObj [], None)
   \<and> fst (handleRequest demo_platform demo_env4 seeded_store ''PUT'' ''/api/resumes/update''
              (update_empty ''r1'')) =
         Inr (JObj [(''resume'', new_resume ''r1'' ''First'' []
                                    ''2024-01-01T00:00:00.000Z'' ''2024-01-04T00:00:00.000Z''),
                    (''message'', JStr ''Resume updated'')])"
proof -
  let ?R = "new_resume ''r1'' ''First'' [] ''2024-01-01T00:00:00.000Z'' ''2024-01-01T00:00:00.000Z''"
  have nn: "JNull \<notin> set [?R]" by (simp add: new_resume_def)
  have a2: "update_args NoBody = Inr (None, JObj [], None)"
    by (rule update_args_plain)
  have a3: "update_args unknown_id_body = Inr (Some (JStr ''r9''), JObj [], None)"
    by (simp add: unknown_id_body_def update_args_plain bodyProp_def getProp_JObj or_else_def)
  have a4: "update_args (update_empty ''r1'') = Inr (Some (JStr ''r1''), JObj [], None)"
    by (simp add: update_empty_def update_args_plain bodyProp_def getProp_JObj or_else_def)
  have n: "nowIso1 demo_env4 = ''2024-01-04T00:00:00.000Z''" by (simp add: demo_env4_def)
  have em: "embed_image v None = v" for v by (simp add: embed_image_def)
  show ?thesis
    using collection_seeded_store a2 a3 a4
      update_status_by_resumeId [OF collection_seeded_store nn a2, of demo_platform demo_env4]
      update_status_by_resumeId [OF collection_seeded_store nn a3, of demo_platform demo_env4]
      update_status_by_resumeId [OF collection_seeded_store nn a4, of demo_platform demo_env4 ?R]
    by (simp add: seeded_store_seeded seeded_store_find build_next_new_resume n em)
qed


text \<open>
  C3 fails on the code. Updating the stored resume \<^verbatim>\<open>r1\<close> with a \<^verbatim>\<open>resumeData\<close> that
  carries \<^verbatim>\<open>_id: r2\<close> returns a resume whose id is \<^verbatim>\<open>r2\<close>; the write then goes by the new
  id, so the stored \<^verbatim>\<open>r1\<close> stays as it was and the result is appended as a second entry.
\<close>

theorem update_overrides_id:
  "fst (handleRequest demo_platform demo_env4 seeded_store ''PUT'' ''/api/resumes/update'' rename_body) =
     Inr (JObj [(''resume'', new_resume ''r2'' ''First'' []
                                ''2024-01-01T00:00:00.000Z'' ''2024-01-04T00:00:00.000Z''),
                (''message'', JStr ''Resume updated'')])
   \<and> collection (snd (handleRequest demo_platform demo_env4 seeded_store ''PUT''
                       ''/api/resumes/update'' rename_body)) =
     JArr [new_resume ''r1'' ''First'' [] ''2024-01-01T00:00:00.000Z'' ''2024-01-01T00:00:00.000Z'',
           new_resume ''r2'' ''First'' [] ''2024-01-01T00:00:00.000Z'' ''2024-01-04T00:00:00.000Z'']"
proof -
  let ?R = "new_resume ''r1'' ''First'' [] ''2024-01-01T00:00:00.000Z'' ''2024-01-01T00:00:00.000Z''"
  let ?N = "new_resume ''r2'' ''First'' [] ''2024-01-01T00:00:00.000Z'' ''2024-01-04T00:00:00.000Z''"
  have a: "update_args rename_body = Inr (Some (JStr ''r1''), JObj [(''_id'', JStr ''r2'')], None)"
    by (simp add: rename_body_def update_args_plain bodyProp_def getProp_JObj or_else_def)
  have b: "build_next ?R (JObj [(''_id'', JStr ''r2'')]) (nowIso1 demo_env4) = Inr ?N"
    by (simp add: build_next_def Let_def spread_into_def own_props_def set_prop_name is_digit_def or_else_def new_resume_def
        getProp_def demo_env4_def)
  have em: "embed_image ?N None = ?N" by (simp add: embed_image_def)
  have i: "array_findIndex ?N 0 [?R] = Inr None" by simp
  have "handleRequest demo_platform demo_env4 seeded_store ''PUT'' ''/api/resumes/update'' rename_body =
          (Inr (JObj [(''resume'', ?N), (''message'', JStr ''Resume updated'')]),
           setResumes (ensureSeed seeded_store) (JArr ([?R] @ [?N])))"
    by (simp add: resumes_update_eq [OF collection_seeded_store] a seeded_store_find b em i
        del: array_find.simps array_findIndex.simps)
  then show ?thesis by (simp add: collection_setResumes)
qed

lemma distinct_spread_into:
  "distinct (map fst acc) \<Longrightarrow> distinct (map fst (spread_into acc v))"
proof -
  have "distinct (map fst acc) \<Longrightarrow> distinct (map fst (fold (\<lambda>(k, x). set_prop k x) props acc))"
    for props
    by (induction props arbitrary: acc) (auto simp: distinct_set_prop)
  then show "distinct (map fst acc) \<Longrightarrow> distinct (map fst (spread_into acc v))"
    by (simp add: spread_into_def)
qed

lemma build_next_props:
  assumes "distinct (map fst kvs)" and "build_next (JObj kvs) rd now = Inr v"
  shows "\<exists>nxt info. v = JObj nxt
           \<and> map_of nxt = (map_of kvs ++ object_map rd)
                 (''personal_info'' \<mapsto> JObj info, ''updatedAt'' \<mapsto> JStr now)
           \<and> map_of info = object_map (personal_info_of (JObj kvs)) ++ object_map (personal_info_of rd)
           \<and> distinct (map fst info)"
proof -
  obtain pd where pd: "getProp rd ''personal_info'' = Inr pd"
    using assms(2) by (cases "getProp rd ''personal_info''") (simp_all add: build_next_def getProp_JObj Let_def)
  let ?info = "spread_into (spread_into [] (or_else (map_of kvs ''personal_info'') (JObj [])))
                 (or_else pd (JObj []))"
  let ?nxt = "AList.update ''updatedAt'' (JStr now)
                (AList.update ''personal_info'' (JObj ?info)
                   (spread_into (spread_into [] (JObj kvs)) rd))"
  have v: "v = JObj ?nxt"
    using assms(2) pd by (simp add: build_next_def getProp_JObj Let_def)
  have m: "map_of ?nxt = (map_of kvs ++ object_map rd)
                 (''personal_info'' \<mapsto> JObj ?info, ''updatedAt'' \<mapsto> JStr now)"
    using assms(1)
    by (simp add: update_conv' map_of_spread_into object_map_distinct)
  have i: "map_of ?info = object_map (personal_info_of (JObj kvs)) ++ object_map (personal_info_of rd)"
    using pd by (simp add: map_of_spread_into personal_info_of_def getProp_JObj)
  have d: "distinct (map fst ?info)"
    by (intro distinct_spread_into) simp
  show ?thesis using v m i d by blast
qed

lemma embed_image_props:
  assumes "map_of nxt ''personal_info'' = Some (JObj info)" and "distinct (map fst info)"
  shows "\<exists>nxt' info'. embed_image (JObj nxt) img = JObj nxt'
           \<and> map_of nxt' = (map_of nxt)(''personal_info'' \<mapsto> JObj info')
           \<and> map_of info' = map_of info ++ image_entry img"
proof (cases "\<exists>url. img = Some (File (Some url))")
  case True
  then obtain url where u: "img = Some (File (Some url))" by blast
  let ?info' = "AList.update ''image'' (JStr url) (spread_into [] (JObj info))"
  have d: "object_map (JObj info) = map_of info"
    using assms(2) by (rule object_map_distinct)
  let ?n' = "AList.update ''personal_info'' (JObj ?info') nxt"
  have e: "embed_image (JObj nxt) img = JObj ?n'"
    using assms u by (simp add: embed_image_def fileToDataUrl_def or_else_def)
  have m1: "map_of ?n' = (map_of nxt)(''personal_info'' \<mapsto> JObj ?info')"
    by (simp add: update_conv')
  have m2: "map_of ?info' = map_of info ++ image_entry img"
    using u d by (simp add: update_conv' map_of_spread_into image_entry_def)
  from e m1 m2 show ?thesis by blast
next
  case False
  then have "embed_image (JObj nxt) img = JObj nxt"
    by (cases img) (auto simp: embed_image_def fileToDataUrl_def split: jsfile.splits option.splits)
  moreover have "image_entry img = Map.empty"
    using False by (auto simp: image_entry_def split: option.splits jsfile.splits)
  moreover have "map_of nxt = (map_of nxt)(''personal_info'' \<mapsto> JObj info)"
    using assms(1) by (auto simp: fun_eq_iff)
  ultimately show ?thesis by (metis map_add_empty)
qed

lemma partial_update:
  assumes "collection ls = JArr rs"
    and "update_args b = Inr (rid, rd, img)" and "truthy_opt rid"
    and "array_find rid rs = Inr (Some existing)" and "distinct_keys existing"
    and "fst (handleRequest pf e ls ''PUT'' ''/api/resumes/update'' b) = Inr res"
  shows "\<exists>nxt info.
           res = JObj [(''resume'', JObj nxt), (''message'', JStr ''Resume updated'')]
         \<and> (\<forall>k. k \<notin> fst ` set (own_props rd) \<and> k \<noteq> ''personal_info'' \<and> k \<noteq> ''updatedAt'' \<longrightarrow>
                getProp (JObj nxt) k = getProp existing k)
         \<and> getProp (JObj nxt) ''personal_info'' = Inr (Some (JObj info))
         \<and> map_of info =
               object_map (personal_info_of existing) ++ object_map (personal_info_of rd)
                 ++ image_entry img
         \<and> getProp (JObj nxt) ''updatedAt'' = Inr (Some (JStr (nowIso1 e)))
         \<and> (\<forall>t0 t1. getTime pf (updatedAt_of existing) = Some t0
                    \<and> getTime pf (Some (JStr (nowIso1 e))) = Some t1 \<and> t0 < t1 \<longrightarrow>
                  time_of pf existing < time_of pf (JObj nxt))"
proof -
  obtain i where i: "getProp existing ''_id'' = Inr i" "strict_eq i rid"
    using array_find_Some assms(4) by blast
  obtain kvs where ex: "existing = JObj kvs"
    using strict_eq_truthy_object [OF i assms(3)] by blast
  have dk: "distinct (map fst kvs)"
    using assms(5) ex by (simp add: distinct_keys_def)
  note eq = resumes_update_eq [OF assms(1), of pf e b]
  obtain v where v: "build_next existing rd (nowIso1 e) = Inr v"
    using assms(2,3,4,6) eq by (cases "build_next existing rd (nowIso1 e)") simp_all
  obtain n0 info0 where n0: "v = JObj n0"
    and m0: "map_of n0 = (map_of kvs ++ object_map rd)
                 (''personal_info'' \<mapsto> JObj info0, ''updatedAt'' \<mapsto> JStr (nowIso1 e))"
    and i0: "map_of info0 = object_map (personal_info_of existing) ++ object_map (personal_info_of rd)"
    and d0: "distinct (map fst info0)"
    using build_next_props [OF dk] v ex by blast
  have p0: "map_of n0 ''personal_info'' = Some (JObj info0)"
    by (simp add: m0)
  obtain n1 info1 where e1: "embed_image (JObj n0) img = JObj n1"
    and m1: "map_of n1 = (map_of n0)(''personal_info'' \<mapsto> JObj info1)"
    and i1: "map_of info1 = map_of info0 ++ image_entry img"
    using embed_image_props [OF p0 d0] by blast
  have res: "res = JObj [(''resume'', JObj n1), (''message'', JStr ''Resume updated'')]"
  proof (cases "array_findIndex (JObj n1) 0 rs")
    case (Inl err)
    then show ?thesis using assms(2,3,4,6) eq v n0 e1 by simp
  next
    case (Inr k)
    then show ?thesis using assms(2,3,4,6) eq v n0 e1 by (cases k) simp_all
  qed
  have keep: "getProp (JObj n1) k = getProp existing k"
    if "k \<notin> fst ` set (own_props rd) \<and> k \<noteq> ''personal_info'' \<and> k \<noteq> ''updatedAt''" for k
    using that object_map_dom [of k rd]
    by (simp add: getProp_JObj ex m1 m0 map_add_def)
  have pinfo: "getProp (JObj n1) ''personal_info'' = Inr (Some (JObj info1))"
    by (simp add: getProp_JObj m1)
  have upd: "getProp (JObj n1) ''updatedAt'' = Inr (Some (JStr (nowIso1 e)))"
    by (simp add: getProp_JObj m1 m0)
  have later: "time_of pf existing < time_of pf (JObj n1)"
    if "getTime pf (updatedAt_of existing) = Some t0
          \<and> getTime pf (Some (JStr (nowIso1 e))) = Some t1 \<and> t0 < t1" for t0 t1
    using that upd by (simp add: time_of_def updatedAt_of_def)
  have merged: "map_of info1 =
      object_map (personal_info_of existing) ++ object_map (personal_info_of rd) ++ image_entry img"
    using i1 i0 by simp
  show ?thesis
    using res keep pinfo merged upd later
    by - (rule exI [of _ n1], rule exI [of _ info1], blast)
qed

text \<open>
  C1, as the code has it. When \<^verbatim>\<open>PUT /api/resumes/update\<close> succeeds on a stored resume (an
  object with distinct keys), every field that \<^verbatim>\<open>resumeData\<close> does not carry, other than
  \<^verbatim>\<open>personal_info\<close> and \<^verbatim>\<open>updatedAt\<close>, has its prior value; \<^verbatim>\<open>personal_info\<close> is the prior
  \<^verbatim>\<open>personal_info\<close> overlaid with the one of \<^verbatim>\<open>resumeData\<close> (and with the image of an image
  part): prior keys are kept unless overwritten, new keys are added; \<^verbatim>\<open>updatedAt\<close> is the
  clock reading of the update, so it is strictly later than the prior \<^verbatim>\<open>updatedAt\<close>
  whenever that reading is.
\<close>

theorem partial_update_merges:
  assumes "collection ls = JArr rs"
    and "update_args b = Inr (rid, rd, img)" and "truthy_opt rid"
    and "array_find rid rs = Inr (Some existing)" and "distinct_keys existing"
    and "fst (handleRequest pf e ls ''PUT'' ''/api/resumes/update'' b) = Inr res"
  shows "\<exists>nxt info.
           res = JObj [(''resume'', JObj nxt), (''message'', JStr ''Resume updated'')]
         \<and> (\<forall>k. k \<notin> fst ` set (own_props rd) \<and> k \<noteq> ''personal_info'' \<and> k \<noteq> ''updatedAt'' \<longrightarrow>
                getProp (JObj nxt) k = getProp existing k)
         \<and> getProp (JObj nxt) ''personal_info'' = Inr (Some (JObj info))
         \<and> map_of info =
               object_map (personal_info_of existing) ++ object_map (personal_info_of rd)
                 ++ image_entry img
         \<and> getProp (JObj nxt) ''updatedAt'' = Inr (Some (JStr (nowIso1 e)))
         \<and> (\<forall>t0 t1. getTime pf (updatedAt_of existing) = Some t0
                    \<and> getTime pf (Some (JStr (nowIso1 e))) = Some t1 \<and> t0 < t1 \<longrightarrow>
                  time_of pf existing < time_of pf (JObj nxt))"
  using assms by (rule partial_update)

lemma city_store_seeded: "ensureSeed city_store = city_store"
  by (rule ext)
     (simp add: ensureSeed_eq city_store_def LS_KEYS_distinct no_usable_json_def no_item_def
       default_user_def)

lemma collection_city_store:
  "collection city_store = JArr [city_resume ''2024-01-01T00:00:00.000Z'']"
  by (simp add: collection_eq city_store_seeded readJson_cases)
     (simp add: city_store_def)

lemma update_args_country:
  "update_args country_body =
     Inr (Some (JStr ''r1''), JObj [(''personal_info'', JObj [(''country'', JStr ''Y'')])], None)"
  by (simp add: country_body_def update_args_plain bodyProp_def getProp_JObj or_else_def)

lemma city_find:
  "array_find (Some (JStr ''r1'')) [city_resume u] = Inr (Some (city_resume u))"
  by (simp add: city_resume_def getProp_JObj)

lemma city_update:
  "fst (handleRequest pf e city_store ''PUT'' ''/api/resumes/update'' country_body) =
     Inr (JObj [(''resume'', merged_city_resume (nowIso1 e)), (''message'', JStr ''Resume updated'')])"
proof -
  let ?R = "city_resume ''2024-01-01T00:00:00.000Z''"
  have b: "build_next ?R (JObj [(''personal_info'', JObj [(''country'', JStr ''Y'')])]) (nowIso1 e)
             = Inr (merged_city_resume (nowIso1 e))"
    by (simp add: build_next_def Let_def spread_into_def own_props_def set_prop_name is_digit_def or_else_def city_resume_def
        merged_city_resume_def getProp_JObj)
  have em: "embed_image (merged_city_resume (nowIso1 e)) None = merged_city_resume (nowIso1 e)"
    by (simp add: embed_image_def)
  have i: "array_findIndex (merged_city_resume (nowIso1 e)) 0 [?R] = Inr (Some 0)"
    by (simp add: city_resume_def merged_city_resume_def getProp_JObj)
  show ?thesis
    by (simp add: resumes_update_eq [OF collection_city_store] update_args_country city_find b em i
        del: array_find.simps array_findIndex.simps)
qed

theorem partial_update_merges_witness:
  "collection city_store = JArr [city_resume ''2024-01-01T00:00:00.000Z'']
   \<and> update_args country_body =
       Inr (Some (JStr ''r1''), JObj [(''personal_info'', JObj [(''country'', JStr ''Y'')])], None)
   \<and> array_find (Some (JStr ''r1'')) [city_resume ''2024-01-01T00:00:00.000Z'']
       = Inr (Some (city_resume ''2024-01-01T00:00:00.000Z''))
   \<and> distinct_keys (city_resume ''2024-01-01T00:00:00.000Z'')
   \<and> fst (handleRequest demo_platform demo_env4 city_store ''PUT'' ''/api/resumes/update'' country_body)
       = Inr (JObj [(''resume'', merged_city_resume ''2024-01-04T00:00:00.000Z''),
                    (''message'', JStr ''Resume updated'')])
   \<and> getProp (merged_city_resume ''2024-01-04T00:00:00.000Z'') ''title''
       = getProp (city_resume ''2024-01-01T00:00:00.000Z'') ''title''
   \<and> getProp (merged_city_resume ''2024-01-04T00:00:00.000Z'') ''personal_info''
       = Inr (Some (JObj [(''city'', JStr ''X''), (''country'', JStr ''Y'')]))
   \<and> time_of demo_platform (city_resume ''2024-01-01T00:00:00.000Z'')
       < time_of demo_platform (merged_city_resume ''2024-01-04T00:00:00.000Z'')"
proof -
  let ?R = "city_resume ''2024-01-01T00:00:00.000Z''"
  let ?rd = "JObj [(''personal_info'', JObj [(''country'', JStr ''Y'')])]"
  have h3: "truthy_opt (Some (JStr ''r1''))" by simp
  have h5: "distinct_keys ?R" by (simp add: distinct_keys_def city_resume_def)
  have n: "nowIso1 demo_env4 = ''2024-01-04T00:00:00.000Z''" by (simp add: demo_env4_def)
  have h6: "fst (handleRequest demo_platform demo_env4 city_store ''PUT'' ''/api/resumes/update'' country_body)
       = Inr (JObj [(''resume'', merged_city_resume ''2024-01-04T00:00:00.000Z''),
                    (''message'', JStr ''Resume updated'')])"
    using city_update [of demo_platform demo_env4] by (simp add: n)
  have t0: "getTime demo_platform (updatedAt_of ?R) = Some 1704067200000"
    by (simp add: updatedAt_of_def city_resume_def getProp_JObj demo_times)
  have t1: "getTime demo_platform (Some (JStr (nowIso1 demo_env4))) = Some 1704326400000"
    by (simp add: n demo_times)
  have k: "''title'' \<notin> fst ` set (own_props ?rd)" by (simp add: own_props_def)
  obtain nxt info where
    r: "JObj [(''resume'', merged_city_resume ''2024-01-04T00:00:00.000Z''),
              (''message'', JStr ''Resume updated'')]
        = JObj [(''resume'', JObj nxt), (''message'', JStr ''Resume updated'')]"
    and keep: "\<forall>k. k \<notin> fst ` set (own_props ?rd) \<and> k \<noteq> ''personal_info'' \<and> k \<noteq> ''updatedAt'' \<longrightarrow>
                getProp (JObj nxt) k = getProp ?R k"
    and later: "\<forall>t0 t1. getTime demo_platform (updatedAt_of ?R) = Some t0
                  \<and> getTime demo_platform (Some (JStr (nowIso1 demo_env4))) = Some t1 \<and> t0 < t1 \<longrightarrow>
                time_of demo_platform ?R < time_of demo_platform (JObj nxt)"
    using partial_update_merges [OF collection_city_store update_args_country h3 city_find h5 h6]
    by blast
  have m: "merged_city_resume ''2024-01-04T00:00:00.000Z'' = JObj nxt" using r by simp
  have "getProp (JObj nxt) ''title'' = getProp ?R ''title''"
    using keep k by simp
  moreover have "time_of demo_platform ?R < time_of demo_platform (JObj nxt)"
    using later t0 t1 by simp
  moreover have "getProp (merged_city_resume ''2024-01-04T00:00:00.000Z'') ''personal_info''
       = Inr (Some (JObj [(''city'', JStr ''X''), (''country'', JStr ''Y'')]))"
    by (simp add: merged_city_resume_def getProp_JObj)
  ultimately show ?thesis
    using collection_city_store update_args_country city_find h5 h6 unfolding m [symmetric]
    by simp
qed

text \<open>
  C1, as the claim states it, fails: an update whose clock reading is the instant of the
  stored \<^verbatim>\<open>updatedAt\<close> (a create and an update within one millisecond) leaves
  \<^verbatim>\<open>updatedAt\<close> as it was, not strictly later.
\<close>

theorem partial_update_same_instant_counterexample:
  "fst (handleRequest demo_platform demo_env city_store ''PUT'' ''/api/resumes/update'' country_body)
     = Inr (JObj [(''resume'', merged_city_resume ''2024-01-01T00:00:00.000Z''),
                  (''message'', JStr ''Resume updated'')])
   \<and> collection city_store = JArr [city_resume ''2024-01-01T00:00:00.000Z'']
   \<and> getProp (merged_city_resume ''2024-01-01T00:00:00.000Z'') ''updatedAt''
       = getProp (city_resume ''2024-01-01T00:00:00.000Z'') ''updatedAt''
   \<and> \<not> time_of demo_platform (city_resume ''2024-01-01T00:00:00.000Z'')
         < time_of demo_platform (merged_city_resume ''2024-01-01T00:00:00.000Z'')"
proof -
  have n: "nowIso1 demo_env = ''2024-01-01T00:00:00.000Z''" by (simp add: demo_env_def)
  have "time_of demo_platform (city_resume ''2024-01-01T00:00:00.000Z'')
          = time_of demo_platform (merged_city_resume ''2024-01-01T00:00:00.000Z'')"
    by (simp add: time_of_def updatedAt_of_def city_resume_def merged_city_resume_def getProp_JObj)
  then show ?thesis
    using city_update [of demo_platform demo_env] collection_city_store
    by (simp add: n) (simp add: city_resume_def merged_city_resume_def getProp_JObj)
qed

end
